theory Spec2Isabelle
  imports Complex_Main "HOL-Library.Sublist"
begin

section \<open>JavaScript string primitives used by the library\<close>

text \<open>
  Strings are lists of characters. \<open>indexOf\<close> and \<open>lastIndexOf\<close> return an integer,
  \<open>-1\<close> when the pattern does not occur, as in JavaScript; the code does arithmetic on
  that result (\<open>hasExtension\<close>) and passes it to \<open>slice\<close>, so the \<open>-1\<close> is kept.
\<close>

fun indexOfFrom :: "string \<Rightarrow> string \<Rightarrow> int \<Rightarrow> int" where
  "indexOfFrom pat [] i = (if pat = [] then i else -1)"
| "indexOfFrom pat (c # cs) i =
     (if prefix pat (c # cs) then i else indexOfFrom pat cs (i + 1))"

definition indexOf :: "string \<Rightarrow> string \<Rightarrow> int" where
  "indexOf s pat = indexOfFrom pat s 0"

fun lastIndexOfFrom :: "string \<Rightarrow> string \<Rightarrow> int \<Rightarrow> int \<Rightarrow> int" where
  "lastIndexOfFrom pat [] i best = (if pat = [] then i else best)"
| "lastIndexOfFrom pat (c # cs) i best =
     lastIndexOfFrom pat cs (i + 1) (if prefix pat (c # cs) then i else best)"

definition lastIndexOf :: "string \<Rightarrow> string \<Rightarrow> int" where
  "lastIndexOf s pat = lastIndexOfFrom pat s 0 (-1)"

text \<open>\<open>s.slice(k)\<close>: a negative start counts from the end of the string.\<close>

definition sliceFrom :: "string \<Rightarrow> int \<Rightarrow> string" where
  "sliceFrom s k = (if k < 0 then drop (nat (int (length s) + k)) s else drop (nat k) s)"

text \<open>\<open>s.slice(0, k)\<close>: a negative end counts from the end of the string.\<close>

definition sliceTo :: "string \<Rightarrow> int \<Rightarrow> string" where
  "sliceTo s k = (if k < 0 then take (nat (int (length s) + k)) s else take (nat k) s)"

text \<open>
  \<open>toLowerCase\<close> on the letters \<open>A\<close> to \<open>Z\<close> (codes 65 to 90): the lower-case letter
  is 32 higher, which sets the bit of weight 32.
\<close>

fun lowerChar :: "char \<Rightarrow> char" where
  "lowerChar (Char b0 b1 b2 b3 b4 b5 b6 b7) =
     (let n = (of_char (Char b0 b1 b2 b3 b4 b5 b6 b7) :: nat)
      in if 65 \<le> n \<and> n \<le> 90 then Char b0 b1 b2 b3 b4 True b6 b7
         else Char b0 b1 b2 b3 b4 b5 b6 b7)"

definition toLowerCase :: "string \<Rightarrow> string" where
  "toLowerCase s = map lowerChar s"

text \<open>
  White space is the space, the codes 9 to 13 and the no-break space (code 160);
  \<open>trim\<close> removes it at both ends.
\<close>

definition isSpace :: "char \<Rightarrow> bool" where
  "isSpace c =
     (let n = (of_char c :: nat) in n = 32 \<or> (9 \<le> n \<and> n \<le> 13) \<or> n = 160)"

definition trim :: "string \<Rightarrow> string" where
  "trim s = rev (dropWhile isSpace (rev (dropWhile isSpace s)))"

text \<open>
  JavaScript truthiness of a value that is a string, \<open>undefined\<close> or \<open>null\<close>:
  only a non-empty string is truthy.
\<close>

fun truthy :: "string option \<Rightarrow> bool" where
  "truthy None = False"
| "truthy (Some s) = (s \<noteq> [])"


section \<open>Image candidates\<close>

text \<open>
  The attributes of a document element (\<open>attribs\<close>) are a map from attribute names to
  values. The library decorates one object per candidate with more and more properties
  (\<open>src\<close>, \<open>title\<close>, \<open>class\<close>, \<open>alt\<close>, \<open>docTitle\<close>, \<open>query\<close>, \<open>score\<close>, the scoring
  breakdown, \<open>dimensions\<close>, \<open>sizeScore\<close>); a property that is \<open>undefined\<close> or \<open>null\<close> is
  \<open>None\<close>. Scores are real numbers.
\<close>

type_synonym attribs = "string \<rightharpoonup> string"

record dimensions =
  loaded :: bool
  width :: "int option"
  height :: "int option"

record image =
  attribs :: attribs
  src :: "string option"
  title :: "string option"
  cssClass :: "string option"
  alt :: "string option"
  isMeta :: bool
  docTitle :: "string option"
  query :: "string option"
  score :: real
  titleScore :: real
  queryScore :: real
  goodWords :: real
  badWords :: real
  badFnameWords :: real
  dimensions :: "dimensions option"
  sizeScore :: real

text \<open>The empty object \<open>{}\<close>.\<close>

definition newObj :: image where
  "newObj = \<lparr> attribs = Map.empty, src = None, title = None, cssClass = None, alt = None,
     isMeta = False, docTitle = None, query = None, score = 0, titleScore = 0,
     queryScore = 0, goodWords = 0, badWords = 0, badFnameWords = 0,
     dimensions = None, sizeScore = 0 \<rparr>"


section \<open>docImageParse: meta images\<close>

text \<open>
  \<open>getMetaImages\<close> receives the elements matched by the selector
  \<open>meta[property='og:image'], meta[name='twitter:image:src'], meta[name='twitter:image'],
  meta[name='twitter:image0']\<close> in document order; the selection itself is the HTML
  library's work, so the model takes the list of the matched elements' attributes.
\<close>

definition metaObj :: "attribs \<Rightarrow> image" where
  "metaObj a = newObj \<lparr> attribs := a(''src'' := a ''content''), isMeta := True \<rparr>"

definition getMetaImages :: "attribs list \<Rightarrow> image list" where
  "getMetaImages images =
     (case images of
        [] \<Rightarrow> []
      | first # rest \<Rightarrow>
          if truthy (first ''content'') then
            metaObj first #
              (case rest of
                 [] \<Rightarrow> []
               | nextObj # _ \<Rightarrow>
                   if ''content'' \<in> dom nextObj then [metaObj nextObj] else [])
          else [])"


text \<open>
  \<open>extractImageTags\<close>: one object per \<open>img\<close> element, in document order. When the
  element has no (truthy) \<open>src\<close> attribute and has a truthy \<open>srcset\<close>, \<open>src\<close> becomes the
  first entry of the comma-separated \<open>srcset\<close>.
\<close>

definition firstSource :: "string \<Rightarrow> string" where
  "firstSource srcset = takeWhile (\<lambda>c. c \<noteq> CHR '','') srcset"

definition imgTagObj :: "attribs \<Rightarrow> image" where
  "imgTagObj a =
     newObj \<lparr> attribs :=
       (if \<not> truthy (a ''src'') \<and> truthy (a ''srcset'')
        then a(''src'' := map_option firstSource (a ''srcset'')) else a) \<rparr>"

definition extractImageTags :: "attribs list \<Rightarrow> image list" where
  "extractImageTags imgs = map imgTagObj imgs"

text \<open>A background image found in a stylesheet: \<open>{ attribs: { src: imgUrl[1] } }\<close>.\<close>

definition cssImageObj :: "string \<Rightarrow> image" where
  "cssImageObj u = newObj \<lparr> attribs := [''src'' \<mapsto> u] \<rparr>"

text \<open>
  The de-duplication pass of \<open>extractImages\<close> keeps its record of the addresses seen in
  a plain object, \<open>imgCheck = {}\<close>, read with \<open>imgCheck[obj.attribs.src]\<close>. A
  property key is a string: an \<open>undefined\<close> address is the key \<open>undefined\<close>. A plain
  object inherits the properties of \<open>Object.prototype\<close>, whose values are truthy, so
  the read is truthy for those names before anything was stored.
\<close>

definition propertyKey :: "string option \<Rightarrow> string" where
  "propertyKey v = (case v of None \<Rightarrow> ''undefined'' | Some s \<Rightarrow> s)"

definition objectPrototypeKeys :: "string list" where
  "objectPrototypeKeys =
     [''constructor'', ''hasOwnProperty'', ''isPrototypeOf'', ''propertyIsEnumerable'',
      ''toLocaleString'', ''toString'', ''valueOf'', ''__proto__'',
      ''__defineGetter__'', ''__defineSetter__'', ''__lookupGetter__'', ''__lookupSetter__'']"

definition imgCheckRead :: "string list \<Rightarrow> string option \<Rightarrow> bool" where
  "imgCheckRead seen v =
     (propertyKey v \<in> set seen \<or> propertyKey v \<in> set objectPrototypeKeys)"

definition flattenObj :: "string \<Rightarrow> string option \<Rightarrow> image \<Rightarrow> image" where
  "flattenObj t q obj =
     obj \<lparr> src := attribs obj ''src'', title := attribs obj ''title'',
           cssClass := attribs obj ''class'', alt := attribs obj ''alt'',
           docTitle := Some t, query := q \<rparr>"

fun flattenDedupe :: "string \<Rightarrow> string option \<Rightarrow> string list \<Rightarrow> image list \<Rightarrow> image list" where
  "flattenDedupe t q seen [] = []"
| "flattenDedupe t q seen (obj # images) =
     (if \<not> imgCheckRead seen (attribs obj ''src'')
      then flattenObj t q obj #
             flattenDedupe t q (propertyKey (attribs obj ''src'') # seen) images
      else flattenDedupe t q seen images)"

text \<open>
  \<open>extractImages\<close>: the meta images, then the \<open>img\<close> elements, then the stylesheet
  images (delivered by \<open>getCSSImages\<close>, whose fetching and parsing are other libraries'
  work), flattened and de-duplicated.
\<close>

definition extractImages ::
  "attribs list \<Rightarrow> attribs list \<Rightarrow> string list \<Rightarrow> string \<Rightarrow> string option \<Rightarrow> image list" where
  "extractImages metas imgs cssUrls t q =
     flattenDedupe t q []
       (getMetaImages metas @ extractImageTags imgs @ map cssImageObj cssUrls)"


section \<open>imageScore: configuration\<close>

record factors =
  imgTitle :: real
  imgSrc :: real
  imgFname :: real

record sizeConfig =
  idealWidth :: real
  idealHeight :: real
  ratioWeight :: real
  smallerWeight :: real
  largerWeight :: real

text \<open>
  The configuration table. Its keys \<open>isMeta\<close>, \<open>goodWords\<close> and \<open>badWords\<close> are also
  property names of a candidate, so the fields of the table carry the prefix \<open>cfg_\<close>
  there.
\<close>

record scoreConfig =
  cfg_isMeta :: real
  isSVG :: real
  isJPG :: real
  isGIF :: real
  isPNG :: real
  docTitleFactors :: factors
  queryFactors :: factors
  goodWordMatch :: real
  badWordMatch :: real
  badWordMatchFname :: real
  size :: sizeConfig
  cfg_goodWords :: "string list"
  cfg_badWords :: "string list"
  badFilenames :: "string list"

definition SCORE_CONFIG :: scoreConfig where
  "SCORE_CONFIG = \<lparr>
     cfg_isMeta = 10,
     isSVG = 5 / 10,
     isJPG = 5 / 10,
     isGIF = 5 / 10,
     isPNG = 5 / 10,
     docTitleFactors = \<lparr> imgTitle = 1, imgSrc = 1, imgFname = 1 \<rparr>,
     queryFactors = \<lparr> imgTitle = 6, imgSrc = 6, imgFname = 6 \<rparr>,
     goodWordMatch = 3 / 10,
     badWordMatch = - 2,
     badWordMatchFname = - 2,
     size = \<lparr> idealWidth = 200, idealHeight = 100, ratioWeight = 35 / 100,
              smallerWeight = 7, largerWeight = 25 / 100 \<rparr>,
     cfg_goodWords = [''logo'', ''main''],
     cfg_badWords = [''spacer'', ''pixel'', ''email'', ''search'', ''button'', ''pageview'',
       ''phone'', ''call'', ''amazonlogo'', ''contact'', ''favicon'', ''blank'', ''question'',
       ''placeholder'', ''bbb'', ''sprite'', ''spinner'', ''reviews'', ''clear'', ''signup'',
       ''rss'', ''border''],
     badFilenames = [''spacer'', ''pixel'', ''amazon'', ''ebay'', ''btn'', ''bot'', ''up'',
       ''twitter'', ''facebook'', ''pinterest'', ''youtube'', ''gplus'', ''google'', ''favicon'',
       ''paypal'', ''mastercard'', ''visa'', ''phone'', ''email'', ''call'', ''border'',
       ''submit'', ''sprite'', ''spinner'', ''1x1'', ''clear'', ''signup'', ''rss'', ''arrow''] \<rparr>"

text \<open>
  \<open>DEPS\<close>: the two libraries the scorer calls. \<open>compareTwoStrings\<close> is the
  string-similarity library's function; \<open>urlParsePathname u\<close> is \<open>url.parse(u).pathname\<close>,
  \<open>None\<close> when the parser reports no path. Both are parameters of the model.
\<close>

record deps =
  compareTwoStrings :: "string \<Rightarrow> string \<Rightarrow> real"
  urlParsePathname :: "string \<Rightarrow> string option"


section \<open>imageScore: scoring\<close>

text \<open>\<open>ifTruthy v f e\<close>: \<open>if (v) f(v) else e\<close> for a string, \<open>undefined\<close> or \<open>null\<close>.\<close>

definition ifTruthy :: "string option \<Rightarrow> (string \<Rightarrow> 'a) \<Rightarrow> 'a \<Rightarrow> 'a" where
  "ifTruthy v f e = (case v of None \<Rightarrow> e | Some s \<Rightarrow> if s \<noteq> [] then f s else e)"

definition isValidSrcTag :: "string option \<Rightarrow> bool" where
  "isValidSrcTag v =
     ifTruthy v (\<lambda>s. if indexOf s ''data:'' = 0 then True
                     else if length (trim s) > 0 then True else False) False"

definition dotted :: "string \<Rightarrow> string" where
  "dotted ext = (case ext of [] \<Rightarrow> ''.'' @ ext
                 | c # _ \<Rightarrow> if c \<noteq> CHR ''.'' then ''.'' @ ext else ext)"

definition hasExtension :: "string \<Rightarrow> string list \<Rightarrow> bool" where
  "hasExtension file extArray =
     list_ex (\<lambda>ext. lastIndexOf file (dotted ext) + int (length (dotted ext))
                      = int (length file)) extArray"

definition getExtensionScore :: "scoreConfig \<Rightarrow> string \<Rightarrow> real" where
  "getExtensionScore cfg imgUrl =
     (if indexOf imgUrl ''data:image'' = 0 then isSVG cfg
      else if hasExtension imgUrl [''ashx'', ''jpg'', ''jpeg''] then isJPG cfg
      else if hasExtension imgUrl [''gif''] then isGIF cfg
      else if hasExtension imgUrl [''png''] then isPNG cfg
      else 0)"

text \<open>
  The scoring functions read \<open>obj.src\<close> into \<open>imgUrl\<close>; they are reached only with an
  address that is a string (\<open>findBestImages\<close> calls \<open>preferenceScore\<close> after
  \<open>isValidSrcTag\<close>), and the model passes that string beside the object.
\<close>

definition getTitleScore :: "deps \<Rightarrow> string \<Rightarrow> image \<Rightarrow> string \<Rightarrow> factors \<Rightarrow> real" where
  "getTitleScore d imgUrl obj t f =
     (let pathname = urlParsePathname d imgUrl;
          fname = ifTruthy pathname (\<lambda>p. sliceFrom p (lastIndexOf p ''/'')) [];
          prePath = ifTruthy pathname (\<lambda>p. sliceTo p (lastIndexOf p ''/'')) [];
          addScore =
            ifTruthy (title obj) (\<lambda>ti. imgTitle f * compareTwoStrings d ti t)
              (ifTruthy (alt obj) (\<lambda>al. imgTitle f * compareTwoStrings d al t)
                 (imgSrc f * compareTwoStrings d prePath t))
      in addScore + imgFname f * compareTwoStrings d fname t)"

definition checkGoodWords :: "scoreConfig \<Rightarrow> string option \<Rightarrow> real" where
  "checkGoodWords cfg text =
     ifTruthy text
       (\<lambda>t. if list_ex (\<lambda>word. indexOf (toLowerCase t) word \<ge> 0) (cfg_goodWords cfg)
             then goodWordMatch cfg else 0) 0"

definition checkBadWords :: "scoreConfig \<Rightarrow> string \<Rightarrow> real" where
  "checkBadWords cfg text =
     (if list_ex (\<lambda>word. indexOf (toLowerCase text) word \<ge> 0) (cfg_badWords cfg)
      then badWordMatch cfg else 0)"

definition checkFilenameBadWords :: "scoreConfig \<Rightarrow> string \<Rightarrow> real" where
  "checkFilenameBadWords cfg imgUrl =
     (if list_ex (\<lambda>word. let fn = sliceFrom imgUrl (lastIndexOf imgUrl ''/'')
                          in indexOf (toLowerCase fn) word \<ge> 0) (badFilenames cfg)
      then badWordMatchFname cfg else 0)"

text \<open>
  \<open>preferenceScore\<close> returns the score and leaves the breakdown (\<open>titleScore\<close>,
  \<open>queryScore\<close>, \<open>goodWords\<close>, \<open>badWords\<close>, \<open>badFnameWords\<close>) on the object. The local
  \<open>isSVG\<close> of the source is \<open>dataImage\<close> here.
\<close>

definition preferenceScore :: "scoreConfig \<Rightarrow> deps \<Rightarrow> string \<Rightarrow> image \<Rightarrow> real \<times> image" where
  "preferenceScore cfg d imgUrl obj =
     (let dataImage = (indexOf imgUrl ''data:image'' \<ge> 0);
          s1 = (if dataImage then 0
                else ifTruthy (docTitle obj)
                       (\<lambda>t. getTitleScore d imgUrl obj t (docTitleFactors cfg)) 0);
          tScore = (if dataImage then 0 else ifTruthy (docTitle obj) (\<lambda>t. s1) 0);
          s2 = (if dataImage then s1
                else s1 + ifTruthy (query obj)
                            (\<lambda>q. getTitleScore d imgUrl obj q (queryFactors cfg)) 0);
          qScore = (if dataImage then 0 else ifTruthy (query obj) (\<lambda>q. s2 - tScore) 0);
          s3 = (if isMeta obj then s2 + cfg_isMeta cfg else s2);
          s4 = (if \<not> dataImage then s3 + checkGoodWords cfg (Some imgUrl) else s3)
                 + checkGoodWords cfg (cssClass obj) + checkGoodWords cfg (title obj);
          s5 = (if \<not> dataImage then s4 + checkBadWords cfg imgUrl else s4);
          s6 = s5 + checkFilenameBadWords cfg imgUrl
      in (s6 + getExtensionScore cfg imgUrl,
          obj \<lparr> titleScore := tScore, queryScore := qScore, goodWords := s4 - s3,
                badWords := s5 - s4, badFnameWords := s6 - s5 \<rparr>))"

text \<open>
  \<open>arr.sort(function (a, b) { return b.score - a.score; })\<close>: descending by score. The
  model is the stable sort; no statement below depends on the order of equal scores.
\<close>

definition sortByScore :: "image list \<Rightarrow> image list" where
  "sortByScore arr = sort_key (\<lambda>item. - score item) arr"

text \<open>
  \<open>normalizeScores\<close> divides every score by the maximum, found from the start value
  \<open>-999999\<close>. Where that maximum is \<open>0\<close> JavaScript yields \<open>NaN\<close> or an infinity, which
  the real numbers do not have (the quotient is \<open>0\<close> here): statements about
  normalised scores are made for a maximum other than \<open>0\<close>.
\<close>

definition maxScore :: "image list \<Rightarrow> real" where
  "maxScore arr = fold (\<lambda>item m. max m (score item)) arr (- 999999)"

definition normalizeScores :: "image list \<Rightarrow> image list" where
  "normalizeScores arr = map (\<lambda>item. item \<lparr> score := score item / maxScore arr \<rparr>) arr"

text \<open>
  A user scoring hook \<open>scoreFn(imgArray, DEPS, sizeScore)\<close> changes the array in place;
  the model is the function from the array before to the array after, with the number of
  parameters the hook declares (its \<open>length\<close> property).
\<close>

record scoreHook =
  hookFn :: "image list \<Rightarrow> bool \<Rightarrow> image list"
  hookArity :: nat

definition scoreObj :: "scoreConfig \<Rightarrow> deps \<Rightarrow> image \<Rightarrow> image" where
  "scoreObj cfg d obj =
     (if isValidSrcTag (src obj)
      then (case src obj of
              Some imgUrl \<Rightarrow>
                (case preferenceScore cfg d imgUrl obj of (s, obj') \<Rightarrow> obj' \<lparr> score := s \<rparr>)
            | None \<Rightarrow> obj \<lparr> score := 0 \<rparr>)
      else obj \<lparr> score := 0 \<rparr>)"

definition findBestImages ::
  "scoreConfig \<Rightarrow> deps \<Rightarrow> image list \<Rightarrow> scoreHook option \<Rightarrow> image list" where
  "findBestImages cfg d imgArray scoreFn =
     (let arr = normalizeScores (sortByScore (map (scoreObj cfg d) imgArray))
      in case scoreFn of
           None \<Rightarrow> arr
         | Some h \<Rightarrow> normalizeScores (sortByScore (hookFn h arr False)))"

definition numTruthy :: "int option \<Rightarrow> bool" where
  "numTruthy v = (case v of None \<Rightarrow> False | Some n \<Rightarrow> n \<noteq> 0)"

text \<open>The function \<open>sizeScore\<close> (the name is also a property of the candidate).\<close>

definition sizeScoreOf :: "scoreConfig \<Rightarrow> image \<Rightarrow> real" where
  "sizeScoreOf cfg imgObj =
     (case dimensions imgObj of
        None \<Rightarrow> 0
      | Some dm \<Rightarrow>
          if \<not> numTruthy (width dm) \<or> \<not> numTruthy (height dm) then 0
          else
            (let x = real_of_int (case width dm of Some w \<Rightarrow> w | None \<Rightarrow> 0);
                 y = real_of_int (case height dm of Some h \<Rightarrow> h | None \<Rightarrow> 0);
                 idealRatio = idealWidth (size cfg) / idealHeight (size cfg);
                 ratio = x / (y + 1 / 1000);
                 rdiff = \<bar>idealRatio - ratio\<bar> * ratioWeight (size cfg);
                 surfaceArea = x * y;
                 sdiff0 = surfaceArea - idealWidth (size cfg) * idealHeight (size cfg);
                 sdiff = (if sdiff0 > 0 then ln \<bar>sdiff0\<bar> * (1 / 100) * largerWeight (size cfg)
                          else if sdiff0 < 0
                            then ln \<bar>sdiff0\<bar> * (1 / 100) * smallerWeight (size cfg)
                          else sdiff0)
             in 1 - (rdiff + sdiff)))"

text \<open>An array slot that validation has set to \<open>null\<close> is \<open>None\<close>.\<close>

definition consolidateAndSizeRank :: "scoreConfig \<Rightarrow> image option list \<Rightarrow> image list" where
  "consolidateAndSizeRank cfg imgArray =
     map (\<lambda>imgObj. imgObj \<lparr> sizeScore := sizeScoreOf cfg imgObj \<rparr>)
       (List.map_filter (\<lambda>item. item) imgArray)"

definition adjustScoresWithSize :: "image list \<Rightarrow> image list" where
  "adjustScoresWithSize newArray =
     sortByScore
       (normalizeScores (map (\<lambda>item. item \<lparr> score := score item + sizeScore item \<rparr>) newArray))"

definition callSizingFunction :: "scoreHook option \<Rightarrow> image list \<Rightarrow> image list" where
  "callSizingFunction scoreFn newArray =
     adjustScoresWithSize
       (case scoreFn of None \<Rightarrow> newArray | Some h \<Rightarrow> hookFn h newArray True)"


section \<open>checkImageUrl: validation of one address\<close>

text \<open>
  A completion callback \<open>cb(err, data)\<close> receives an error (a truthy string) or
  \<open>null\<close>, and the data or \<open>null\<close>. An operation that returns without ever calling its
  callback is \<open>NotInvoked\<close>.
\<close>

type_synonym cbArgs = "string option \<times> dimensions option"

datatype 'a invoked = NotInvoked | Invoked 'a

text \<open>
  The surroundings of a validation: whether \<open>new url.URL(u)\<close> accepts the address,
  whether \<open>process.env.NODE_ENV\<close> is \<open>test\<close>, whether the callback data bus already holds
  a result for the address (\<open>registerFetch\<close> returns true and the bus calls the callback
  with that result), and what \<open>getImageSize\<close> calls back with for the address.
\<close>

record env =
  validURL :: "string \<Rightarrow> bool"
  nodeEnvTest :: bool
  busResult :: "string \<Rightarrow> cbArgs option"
  getImageSizeResult :: "string \<Rightarrow> cbArgs invoked"

definition isWordChar :: "char \<Rightarrow> bool" where
  "isWordChar c =
     (let n = (of_char c :: nat)
      in (48 \<le> n \<and> n \<le> 57) \<or> (65 \<le> n \<and> n \<le> 90) \<or> (97 \<le> n \<and> n \<le> 122) \<or> n = 95)"

text \<open>
  The test \<open>/^https?\:\/\/\w\S+\.\S+$/i\<close>: \<open>http\<close> in either case, an optional \<open>s\<close>,
  \<open>://\<close>, one word character, and then to the end of the string no white space and a
  dot that is neither the first nor the last of those characters.
\<close>

definition httpUrlPattern :: "string \<Rightarrow> bool" where
  "httpUrlPattern u =
     (toLowerCase (take 4 u) = ''http'' \<and>
      (let r = drop 4 u;
           r' = (case r of [] \<Rightarrow> r | c # cs \<Rightarrow> if lowerChar c = CHR ''s'' then cs else r)
       in take 3 r' = ''://'' \<and>
          (case drop 3 r' of
             [] \<Rightarrow> False
           | w # rest \<Rightarrow>
               isWordChar w \<and> list_all (\<lambda>c. \<not> isSpace c) rest \<and>
               list_ex (\<lambda>i. rest ! i = CHR ''.'') [1 ..< length rest - 1])))"

definition fauxSuccess :: dimensions where
  "fauxSuccess = \<lparr> loaded = True, width = Some 200, height = Some 100 \<rparr>"

text \<open>The function \<open>_checkImageUrl\<close>.\<close>

definition private_checkImageUrl :: "env \<Rightarrow> string \<Rightarrow> cbArgs invoked" where
  "private_checkImageUrl e imgUrl =
     (if indexOf imgUrl ''data:'' = 0 then Invoked (None, Some fauxSuccess)
      else if nodeEnvTest e then
        (if imgUrl = ''testnull.jpg'' then Invoked (Some ''Testing Error'', None)
         else Invoked (None, Some fauxSuccess))
      else
        (case getImageSizeResult e imgUrl of
           NotInvoked \<Rightarrow> NotInvoked
         | Invoked (err, dims) \<Rightarrow>
             if truthy err \<or> dims = None then Invoked (err, None) else Invoked (err, dims)))"

text \<open>
  The public \<open>checkImageUrl\<close>. An address that is \<open>undefined\<close> makes \<open>new url.URL\<close>
  throw, like any address it rejects; the function then returns. It also returns, with
  no \<open>else\<close> branch, when the pattern test fails.
\<close>

definition checkImageUrl :: "env \<Rightarrow> string option \<Rightarrow> cbArgs invoked" where
  "checkImageUrl e v =
     (case v of
        None \<Rightarrow> NotInvoked
      | Some imgUrl \<Rightarrow>
          if \<not> validURL e imgUrl then NotInvoked
          else if httpUrlPattern imgUrl then
            (case busResult e imgUrl of
               Some r \<Rightarrow> Invoked r
             | None \<Rightarrow> private_checkImageUrl e imgUrl)
          else NotInvoked)"


section \<open>checkImageUrl: getImageSize and the key store\<close>

text \<open>
  The key of a request is \<open>imgUrl + "[" + callCount++ + "]"\<close>; the model keeps the pair
  of the address and the counter. The state of a request is the global key store, the
  calls of the completion callback made so far (oldest first), and the exception, if
  any, that a handler has thrown and nobody caught.
\<close>

type_synonym key = "string \<times> nat"

record keyState =
  keyStore :: "key \<rightharpoonup> string"
  calls :: "cbArgs list"
  thrown :: "string option"

definition enterKey :: "key \<Rightarrow> keyState \<Rightarrow> keyState" where
  "enterKey k st =
     (if k \<in> dom (keyStore st) then st \<lparr> thrown := Some ''duplicate key in keystore'' \<rparr>
      else st \<lparr> keyStore := (keyStore st)(k \<mapsto> ''enter'') \<rparr>)"

definition updateKey :: "key \<Rightarrow> string \<Rightarrow> keyState \<Rightarrow> keyState" where
  "updateKey k status st =
     (if k \<in> dom (keyStore st) then st \<lparr> keyStore := (keyStore st)(k \<mapsto> status) \<rparr>
      else st \<lparr> thrown := Some ''updating a non existent key'' \<rparr>)"

definition exitKey :: "key \<Rightarrow> keyState \<Rightarrow> bool \<times> keyState" where
  "exitKey k st =
     (if k \<in> dom (keyStore st) then (True, st \<lparr> keyStore := (keyStore st)(k := None) \<rparr>)
      else (False, st))"

definition cb :: "cbArgs \<Rightarrow> keyState \<Rightarrow> keyState" where
  "cb args st = st \<lparr> calls := calls st @ [args] \<rparr>"

text \<open>The recurring form \<open>if (exitKey(thisKey, ...)) { cb(...); }\<close>.\<close>

definition exitThenCb :: "key \<Rightarrow> cbArgs \<Rightarrow> keyState \<Rightarrow> keyState" where
  "exitThenCb k args st = (case exitKey k st of (won, st') \<Rightarrow> if won then cb args st' else st')"

text \<open>
  \<open>extensionSupportedForSizing\<close>, from the path that \<open>url.parse\<close> reports for the
  address.
\<close>

definition extensionSupportedForSizing :: "string option \<Rightarrow> string \<times> bool" where
  "extensionSupportedForSizing pathname =
     ifTruthy pathname
       (\<lambda>p. let ext = toLowerCase (sliceFrom p (lastIndexOf p ''.'' + 1))
             in (ext, ext \<in> set [''gif'', ''jpg'', ''jpeg'', ''bmp'', ''png'', ''psd'', ''tiff'',
                                  ''webp'', ''svg'']))
       ([], False)"

text \<open>
  What the two sniffing libraries say about the bytes read when the stream ends:
  whether \<open>imageType(buffer)\<close> recognises an image, and what \<open>sizeOf(buffer)\<close> returns
  (dimensions and a type), \<open>None\<close> when it throws.
\<close>

record endBuffer =
  imageTypeResult :: bool
  sizeOfResult :: "(dimensions \<times> string option) option"

record request =
  thisKey :: key
  existenceOnly :: bool
  ext :: string

definition typeMismatch :: "string option \<Rightarrow> string \<Rightarrow> bool" where
  "typeMismatch rtype e =
     ifTruthy rtype (\<lambda>t. e \<noteq> [] \<and> t \<noteq> e \<and> t \<noteq> ''jpg'') False"

definition processFileEnd :: "endBuffer \<Rightarrow> request \<Rightarrow> keyState \<Rightarrow> keyState" where
  "processFileEnd buffer opts st =
     (if existenceOnly opts then
        (if imageTypeResult buffer
         then exitThenCb (thisKey opts)
                (None, Some \<lparr> loaded = True, width = None, height = None \<rparr>) st
         else cb (Some ''bad image type'', None) (snd (exitKey (thisKey opts) st)))
      else
        (case sizeOfResult buffer of
           None \<Rightarrow>
             exitThenCb (thisKey opts)
               (None, Some \<lparr> loaded = True, width = Some 10, height = Some 10 \<rparr>) st
         | Some (ret, rtype) \<Rightarrow>
             if typeMismatch rtype (ext opts)
             then exitThenCb (thisKey opts)
                    (Some (''type mismatch: '' @ propertyKey rtype), None) st
             else exitThenCb (thisKey opts) (None, Some ret) st))"

text \<open>
  The events the transport delivers to the handlers that \<open>getImageSize\<close> installs.
  \<open>DataChunk\<close> carries whether \<open>sizeOf\<close> succeeds on the bytes so far (\<open>processData\<close>
  then destroys the response, which brings a later event).
\<close>

datatype transportEvent =
    ResponseStarted
  | DataChunk bool
  | EndOfStream endBuffer
  | ReadError string
  | ConnectionError string
  | TimeoutFired

definition processData :: "key \<Rightarrow> bool \<Rightarrow> keyState \<Rightarrow> keyState" where
  "processData k sizeable st =
     (let st1 = updateKey k ''got a chunk'' st
      in if thrown st1 \<noteq> None then st1
         else
           (let st2 = updateKey k ''size calculated, ending file read'' st1
            in if sizeable then st2
               else updateKey k ''size calculate failed, continue reading'' st2))"

definition handleEvent :: "request \<Rightarrow> transportEvent \<Rightarrow> keyState \<Rightarrow> keyState" where
  "handleEvent r ev st =
     (case ev of
        ResponseStarted \<Rightarrow> updateKey (thisKey r) ''transporting'' st
      | DataChunk sizeable \<Rightarrow> processData (thisKey r) sizeable st
      | EndOfStream buffer \<Rightarrow> processFileEnd buffer r st
      | ReadError e \<Rightarrow>
          (let st1 = updateKey (thisKey r) (''on error: '' @ e) st
           in if thrown st1 \<noteq> None then st1
              else if e \<noteq> ''finished''
                then exitThenCb (thisKey r) (Some ''Could not open file'', None) st1
              else st1)
      | ConnectionError e \<Rightarrow>
          (if e \<noteq> ''finished'' then exitThenCb (thisKey r) (Some e, None) st else st)
      | TimeoutFired \<Rightarrow> exitThenCb (thisKey r) (Some ''Timeout'', None) st)"

text \<open>An exception that leaves a handler ends the run: later events are not handled.\<close>

fun deliver :: "request \<Rightarrow> transportEvent list \<Rightarrow> keyState \<Rightarrow> keyState" where
  "deliver r [] st = st"
| "deliver r (ev # evs) st =
     (if thrown st \<noteq> None then st else deliver r evs (handleEvent r ev st))"

text \<open>
  \<open>getImageSize\<close> for the address \<open>imgUrl\<close>, the \<open>n\<close>-th request: \<open>okURL\<close> is whether
  \<open>new url.URL\<close> accepts the address, \<open>protocol\<close> and \<open>pathname\<close> are what \<open>url.parse\<close>
  reports, and \<open>evs\<close> are the transport's events after the launch.
\<close>

definition getImageSize ::
  "bool \<Rightarrow> string option \<Rightarrow> string option \<Rightarrow> string \<Rightarrow> nat \<Rightarrow> transportEvent list
     \<Rightarrow> keyState \<Rightarrow> keyState" where
  "getImageSize okURL protocol pathname imgUrl n evs st =
     (if \<not> okURL then cb (Some (''Invalid image url: '' @ imgUrl), None) st
      else
        (let extObj = extensionSupportedForSizing pathname;
             r = \<lparr> thisKey = (imgUrl, n), existenceOnly = \<not> snd extObj, ext = fst extObj \<rparr>;
             st1 = enterKey (thisKey r) st
         in if thrown st1 \<noteq> None then st1
            else if protocol = Some ''http:'' \<or> protocol = Some ''https:''
              then deliver r evs (updateKey (thisKey r) ''launched transport'' st1)
            else exitThenCb (thisKey r) (Some ''Bad Protocol'', None) st1))"

definition emptyKeyState :: keyState where
  "emptyKeyState = \<lparr> keyStore = Map.empty, calls = [], thrown = None \<rparr>"


section \<open>checkImageUrl: resolveRelativeUrl\<close>

text \<open>
  Modelled from the spec: \<open>url.resolve\<close>, the URL library's resolution of a reference
  against a base, which is not part of the repository. The specification describes it
  so: absolute references pass through; scheme-relative references inherit the base's
  scheme; root-relative and path-relative references resolve against the base's origin
  and path; the empty string resolves to the base unchanged.
\<close>

definition isSchemeChar :: "char \<Rightarrow> bool" where
  "isSchemeChar c = (isWordChar c \<and> c \<noteq> CHR ''_'' \<or> c \<in> set ''+-.'')"

definition splitScheme :: "string \<Rightarrow> (string \<times> string) option" where
  "splitScheme u =
     (let sch = takeWhile (\<lambda>c. c \<noteq> CHR '':'') u;
          rest = dropWhile (\<lambda>c. c \<noteq> CHR '':'') u
      in if sch \<noteq> [] \<and> rest \<noteq> [] \<and> list_all isSchemeChar sch
         then Some (sch, tl rest) else None)"

definition directoryOf :: "string \<Rightarrow> string" where
  "directoryOf path = (if path = [] then ''/'' else sliceTo path (lastIndexOf path ''/'' + 1))"

definition urlResolve :: "string \<Rightarrow> string \<Rightarrow> string" where
  "urlResolve base ref =
     (if ref = [] then base
      else if splitScheme ref \<noteq> None then ref
      else
        (case splitScheme base of
           None \<Rightarrow> ref
         | Some (sch, rest) \<Rightarrow>
             (let hasAuthority = prefix ''//'' rest;
                  afterSlashes = (if hasAuthority then drop 2 rest else rest);
                  authority = (if hasAuthority
                               then takeWhile (\<lambda>c. c \<notin> set ''/?#'') afterSlashes else []);
                  pathEtc = (if hasAuthority
                             then dropWhile (\<lambda>c. c \<notin> set ''/?#'') afterSlashes else rest);
                  path = takeWhile (\<lambda>c. c \<notin> set ''?#'') pathEtc;
                  origin = sch @ ''://'' @ authority
              in if prefix ''//'' ref then sch @ '':'' @ ref
                 else if prefix ''/'' ref then origin @ ref
                 else origin @ directoryOf path @ ref)))"

text \<open>
  \<open>resolveRelativeUrl\<close> called without a callback: it returns
  \<open>url.resolve(sourceUrl, imageUrl)\<close> and validates nothing.
\<close>

definition resolveRelativeUrl :: "string \<Rightarrow> string \<Rightarrow> string" where
  "resolveRelativeUrl sourceUrl imageUrl = urlResolve sourceUrl imageUrl"


section \<open>best-image: de-duplication and the selection of a valid image\<close>

text \<open>
  \<open>deDupeImageArray\<close> stores every candidate under its address in a plain object
  (\<open>obj[img.src] = img\<close>) and then pushes the object's values in the order of
  \<open>for (key in obj)\<close>. An assignment to a key that is present replaces the value and
  leaves the key in its place; a new key goes to the end. (This is the enumeration
  order of keys that are neither array indices nor \<open>__proto__\<close>, which the addresses of
  the pipeline, all resolved URLs, are not.)
\<close>

fun assign :: "(string \<times> image) list \<Rightarrow> string \<Rightarrow> image \<Rightarrow> (string \<times> image) list" where
  "assign [] k v = [(k, v)]"
| "assign ((k', v') # kvs) k v =
     (if k' = k then (k, v) # kvs else (k', v') # assign kvs k v)"

text \<open>The object \<open>obj\<close> after the \<open>forEach\<close> loop.\<close>

definition storeAll :: "image list \<Rightarrow> (string \<times> image) list" where
  "storeAll imgArray = fold (\<lambda>img obj. assign obj (propertyKey (src img)) img) imgArray []"

definition deDupeImageArray :: "image list \<Rightarrow> image list" where
  "deDupeImageArray imgArray = map snd (storeAll imgArray)"

definition FIND_BLOCK_SIZE :: nat where
  "FIND_BLOCK_SIZE = 10"

text \<open>
  How a run of \<open>findValidImage\<close> ends: it calls \<open>cback(err, bestImage)\<close>, or a
  \<open>TypeError\<close> is thrown and \<open>cback\<close> is not called, or the join of the parallel
  validations never happens because one of them never calls back.
\<close>

datatype completion =
    Cback "string option" "string option"
  | TypeErrorThrown
  | NeverCompletes

text \<open>
  The validation of one candidate of the batch: \<open>img.dimensions = dimensions\<close>, and the
  slot becomes \<open>null\<close> when \<open>err\<close> is truthy.
\<close>

definition validateSlot :: "env \<Rightarrow> image \<Rightarrow> image option invoked" where
  "validateSlot e img =
     (case checkImageUrl e (src img) of
        NotInvoked \<Rightarrow> NotInvoked
      | Invoked (err, dims) \<Rightarrow>
          Invoked (if truthy err then None else Some (img \<lparr> dimensions := dims \<rparr>)))"

definition slotValue :: "image option invoked \<Rightarrow> image option" where
  "slotValue r = (case r of NotInvoked \<Rightarrow> None | Invoked v \<Rightarrow> v)"

text \<open>
  The function has the parameters \<open>(fullUrl, fullImgArray, scoreFn, cback)\<close>. Its call
  for the next batch is \<open>findValidImage(fullImgArray.slice(end), scoreFn, cback)\<close>,
  three arguments: in the callee \<open>fullImgArray\<close> is the caller's \<open>scoreFn\<close> and \<open>cback\<close>
  is \<open>undefined\<close>. With \<open>scoreFn\<close> \<open>null\<close>, reading \<open>fullImgArray.length\<close> throws; with a
  hook that declares no parameter, \<open>length\<close> is \<open>0\<close> and the call of the undefined
  \<open>cback\<close> throws; with any other hook, \<open>fullImgArray.slice\<close> is not a function and the
  call throws.
\<close>

definition findValidImage_nextBatch :: "scoreHook option \<Rightarrow> completion" where
  "findValidImage_nextBatch scoreFn =
     (case scoreFn of
        None \<Rightarrow> TypeErrorThrown
      | Some h \<Rightarrow> if hookArity h = 0 then TypeErrorThrown else TypeErrorThrown)"

definition findValidImage ::
  "env \<Rightarrow> scoreConfig \<Rightarrow> image list \<Rightarrow> scoreHook option \<Rightarrow> completion" where
  "findValidImage e cfg fullImgArray scoreFn =
     (if length fullImgArray = 0 then Cback (Some ''No valid image found'') None
      else
        (let endIx = min (0 + FIND_BLOCK_SIZE) (length fullImgArray);
             imgArray = take endIx fullImgArray;
             slots = map (validateSlot e) imgArray
         in if NotInvoked \<in> set slots then NeverCompletes
            else
              (let newArray =
                     callSizingFunction scoreFn
                       (consolidateAndSizeRank cfg (map slotValue slots))
               in if length newArray > 0 then Cback None (src (hd newArray))
                  else findValidImage_nextBatch scoreFn)))"


section \<open>Stand-ins for the libraries in worked examples\<close>

text \<open>
  The theorems below hold for every \<open>deps\<close>. A worked example needs one instance: the
  similarity that is \<open>1\<close> on equal strings and \<open>0\<close> on others, and the path of an
  address of the form \<open>scheme://authority/path?query#hash\<close>. The examples compare only
  equal strings and strings without a common pair of adjacent characters.
\<close>

definition examplePathname :: "string \<Rightarrow> string option" where
  "examplePathname u =
     (case splitScheme u of
        None \<Rightarrow> Some (takeWhile (\<lambda>c. c \<notin> set ''?#'') u)
      | Some (sch, rest) \<Rightarrow>
          if prefix ''//'' rest
          then (let path = takeWhile (\<lambda>c. c \<notin> set ''?#'')
                             (dropWhile (\<lambda>c. c \<notin> set ''/?#'') (drop 2 rest))
                in Some (if path = [] then ''/'' else path))
          else None)"

definition exampleDeps :: deps where
  "exampleDeps = \<lparr> compareTwoStrings = (\<lambda>a b. if a = b then 1 else 0),
                    urlParsePathname = examplePathname \<rparr>"

definition exampleEnv :: env where
  "exampleEnv = \<lparr> validURL = (\<lambda>u. True), nodeEnvTest = False, busResult = (\<lambda>u. None),
                   getImageSizeResult = (\<lambda>u. Invoked (Some ''Timeout'', None)) \<rparr>"


section \<open>Notions used in the statements\<close>

text \<open>
  A text mentions one of a list of words when its lower-case form contains the word:
  the test \<open>text.toLowerCase().indexOf(word) >= 0\<close> that the word checks apply.
\<close>

definition mentionsAny :: "string list \<Rightarrow> string \<Rightarrow> bool" where
  "mentionsAny ws text = list_ex (\<lambda>word. indexOf (toLowerCase text) word \<ge> 0) ws"

text \<open>The candidates marked \<open>isMeta\<close> come before all the others.\<close>

definition metaFirst :: "image list \<Rightarrow> bool" where
  "metaFirst arr = (arr = filter isMeta arr @ filter (\<lambda>c. \<not> isMeta c) arr)"


section \<open>Facts about the string primitives\<close>

lemma indexOfFrom_range: "indexOfFrom pat s i = - 1 \<or> i \<le> indexOfFrom pat s i"
proof (induction s arbitrary: i)
  case Nil
  show ?case by simp
next
  case (Cons c cs)
  from Cons [of "i + 1"] show ?case by auto
qed

lemma indexOfFrom_sublist: "0 \<le> i \<Longrightarrow> (0 \<le> indexOfFrom pat s i) = sublist pat s"
proof (induction s arbitrary: i)
  case Nil
  then show ?case by simp
next
  case (Cons c cs)
  then show ?case by (simp add: sublist_Cons_right)
qed

lemma indexOf_sublist: "(0 \<le> indexOf s pat) = sublist pat s"
  by (simp add: indexOf_def indexOfFrom_sublist)

lemma indexOf_negative: "(indexOf s pat < 0) = (\<not> sublist pat s)"
  using indexOf_sublist [of s pat] by linarith

lemma indexOf_zero_prefix: "(indexOf s pat = 0) = prefix pat s"
proof (cases s)
  case Nil
  then show ?thesis by (simp add: indexOf_def)
next
  case (Cons c cs)
  from indexOfFrom_range [of pat cs 1] Cons show ?thesis
    by (auto simp: indexOf_def)
qed

lemma mentionsAny_sublist:
  "mentionsAny ws text = (\<exists>w \<in> set ws. sublist w (toLowerCase text))"
  by (simp add: mentionsAny_def list_ex_iff indexOf_sublist)

lemma sublist_drop_prefix: "sublist pat s = (\<exists>k \<le> length s. prefix pat (drop k s))"
proof
  assume "sublist pat s"
  then obtain ys' where "suffix ys' s" "prefix pat ys'"
    by (auto simp: sublist_altdef')
  then obtain zs where "s = zs @ ys'" by (auto simp: suffix_def)
  with \<open>prefix pat ys'\<close> have "length zs \<le> length s \<and> prefix pat (drop (length zs) s)"
    by simp
  then show "\<exists>k \<le> length s. prefix pat (drop k s)" by blast
next
  assume "\<exists>k \<le> length s. prefix pat (drop k s)"
  then obtain k where "prefix pat (drop k s)" by blast
  moreover have "suffix (drop k s) s" by (rule suffix_drop)
  ultimately show "sublist pat s" by (auto simp: sublist_altdef')
qed

lemma prefix_before_dot:
  assumes "CHR ''.'' \<notin> set w"
  shows "prefix w (b @ CHR ''.'' # e) = prefix w b"
proof
  assume "prefix w (b @ CHR ''.'' # e)"
  then consider "prefix w b" | us where "w = b @ us" "prefix us (CHR ''.'' # e)"
    by (auto simp: prefix_append)
  then show "prefix w b"
  proof cases
    case 1
    then show ?thesis .
  next
    case 2
    with assms have "us = []" by (cases us) auto
    with 2 show ?thesis by simp
  qed
next
  assume "prefix w b"
  then show "prefix w (b @ CHR ''.'' # e)" by (simp add: prefix_prefix)
qed

lemma sublist_before_dot:
  assumes dot: "CHR ''.'' \<notin> set w" and e: "\<not> sublist w e"
  shows "sublist w (b @ CHR ''.'' # e) = sublist w b"
proof
  assume "sublist w (b @ CHR ''.'' # e)"
  then consider "sublist w b" | "sublist w (CHR ''.'' # e)"
    | xs1 xs2 where "w = xs1 @ xs2" "suffix xs1 b" "prefix xs2 (CHR ''.'' # e)"
    by (auto simp: sublist_append)
  then show "sublist w b"
  proof cases
    case 1
    then show ?thesis .
  next
    case 2
    with e have "prefix w (CHR ''.'' # e)" by (simp add: sublist_Cons_right)
    with dot have "w = []" by (cases w) auto
    then show ?thesis by simp
  next
    case 3
    with dot have "xs2 = []" by (cases xs2) auto
    with 3 show ?thesis by (auto intro: suffix_imp_sublist)
  qed
next
  assume "sublist w b"
  then show "sublist w (b @ CHR ''.'' # e)"
    by (metis sublist_append)
qed

lemma lastIndexOfFrom_absent:
  "\<not> sublist pat s \<Longrightarrow> lastIndexOfFrom pat s i best = best"
proof (induction s arbitrary: i best)
  case Nil
  then show ?case by auto
next
  case (Cons c cs)
  then show ?case by (simp add: sublist_Cons_right)
qed

lemma lastIndexOfFrom_present:
  "k \<le> length s \<Longrightarrow> prefix pat (drop k s) \<Longrightarrow>
   \<exists>k'. k \<le> k' \<and> k' \<le> length s \<and> prefix pat (drop k' s) \<and>
        lastIndexOfFrom pat s i best = i + int k'"
proof (induction s arbitrary: i best k)
  case Nil
  then show ?case by simp
next
  case (Cons c cs)
  show ?case
  proof (cases k)
    case 0
    with Cons.prems have here: "prefix pat (c # cs)" by simp
    show ?thesis
    proof (cases "sublist pat cs")
      case True
      then obtain k0 where "k0 \<le> length cs" "prefix pat (drop k0 cs)"
        by (auto simp: sublist_drop_prefix)
      from Cons.IH [OF this, of "i + 1" i]
      obtain k' where "k' \<le> length cs" "prefix pat (drop k' cs)"
        "lastIndexOfFrom pat cs (i + 1) i = i + 1 + int k'" by blast
      with here 0 show ?thesis
        by (intro exI [of _ "Suc k'"]) simp
    next
      case False
      with here 0 show ?thesis
        by (intro exI [of _ 0]) (simp add: lastIndexOfFrom_absent)
    qed
  next
    case (Suc k1)
    with Cons.prems have "k1 \<le> length cs" "prefix pat (drop k1 cs)" by simp_all
    from Cons.IH [OF this, of "i + 1" "if prefix pat (c # cs) then i else best"]
    obtain k' where "k1 \<le> k'" "k' \<le> length cs" "prefix pat (drop k' cs)"
      "lastIndexOfFrom pat cs (i + 1) (if prefix pat (c # cs) then i else best) = i + 1 + int k'"
      by blast
    with Suc show ?thesis
      by (intro exI [of _ "Suc k'"]) simp
  qed
qed

lemma lastIndexOf_cases:
  "lastIndexOf s pat = - 1 \<and> \<not> sublist pat s \<or>
   (\<exists>k \<le> length s. lastIndexOf s pat = int k \<and> prefix pat (drop k s))"
proof (cases "sublist pat s")
  case False
  then show ?thesis by (simp add: lastIndexOf_def lastIndexOfFrom_absent)
next
  case True
  then obtain k0 where "k0 \<le> length s" "prefix pat (drop k0 s)"
    by (auto simp: sublist_drop_prefix)
  from lastIndexOfFrom_present [OF this, of 0 "- 1"] show ?thesis
    by (auto simp: lastIndexOf_def)
qed

lemma hasExtension_one:
  "(lastIndexOf fl pat + int (length pat) = int (length fl)) =
     (suffix pat fl \<or> \<not> sublist pat fl \<and> length fl + 1 = length pat)"
proof (cases "sublist pat fl")
  case False
  then have "lastIndexOf fl pat = - 1"
    by (simp add: lastIndexOf_def lastIndexOfFrom_absent)
  moreover from False have "\<not> suffix pat fl" by (auto intro: suffix_imp_sublist)
  ultimately show ?thesis using False by auto
next
  case True
  show ?thesis
  proof
    assume eq: "lastIndexOf fl pat + int (length pat) = int (length fl)"
    from True lastIndexOf_cases [of fl pat]
    obtain k where k: "k \<le> length fl" "lastIndexOf fl pat = int k" "prefix pat (drop k fl)"
      by auto
    with eq have len: "length (drop k fl) = length pat" by simp
    from k obtain zs where zs: "drop k fl = pat @ zs" by (auto simp: prefix_def)
    then have "length (drop k fl) = length pat + length zs" by simp
    with len have "zs = []" by simp
    with zs have "drop k fl = pat" by simp
    then have "suffix pat fl" by (metis suffix_drop)
    then show "suffix pat fl \<or> \<not> sublist pat fl \<and> length fl + 1 = length pat" ..
  next
    assume "suffix pat fl \<or> \<not> sublist pat fl \<and> length fl + 1 = length pat"
    with True have "suffix pat fl" by simp
    then obtain zs where fl: "fl = zs @ pat" by (auto simp: suffix_def)
    then have "length zs \<le> length fl" "prefix pat (drop (length zs) fl)" by simp_all
    from lastIndexOfFrom_present [OF this, of 0 "- 1"]
    obtain k' where k': "length zs \<le> k'" "k' \<le> length fl" "prefix pat (drop k' fl)"
      "lastIndexOf fl pat = int k'" by (auto simp: lastIndexOf_def)
    then have "length pat \<le> length (drop k' fl)" by (auto dest: prefix_length_le)
    with k' fl have "k' = length zs" by simp
    with k' fl show "lastIndexOf fl pat + int (length pat) = int (length fl)" by simp
  qed
qed

lemma lastIndexOfFrom_char_absent:
  "c \<notin> set z \<Longrightarrow> lastIndexOfFrom [c] z i best = best"
  by (induction z arbitrary: i best) auto

lemma lastIndexOfFrom_char_append:
  "c \<notin> set z \<Longrightarrow> lastIndexOfFrom [c] (s @ z) i best = lastIndexOfFrom [c] s i best"
proof (induction s arbitrary: i best)
  case Nil
  then show ?case by (cases z) (simp_all add: lastIndexOfFrom_char_absent)
next
  case (Cons a s)
  then show ?case by simp
qed

lemma lastIndexOf_char_append:
  "c \<notin> set z \<Longrightarrow> lastIndexOf (s @ z) [c] = lastIndexOf s [c]"
  by (simp add: lastIndexOf_def lastIndexOfFrom_char_append)


section \<open>Meta-image extraction\<close>

lemma truthy_iff: "truthy x \<longleftrightarrow> (\<exists>s. x = Some s \<and> s \<noteq> [])"
  by (cases x) auto


text \<open>
  Claim C10. If the first element matched by the meta-tag selector has no
  \<open>content\<close> attribute, \<open>getMetaImages\<close> returns the empty list, whatever the later
  matches carry. In every case at most two candidates are returned, each marked
  \<open>isMeta\<close>, each with a \<open>content\<close> attribute, and each with \<open>src\<close> equal to that
  \<open>content\<close> attribute.
\<close>

theorem getMetaImages_first_match_decides:
  "(first ''content'' = None \<longrightarrow> getMetaImages (first # rest) = []) \<and>
   length (getMetaImages images) \<le> 2 \<and>
   (\<forall>c \<in> set (getMetaImages images).
      isMeta c \<and> attribs c ''content'' \<noteq> None \<and> attribs c ''src'' = attribs c ''content'')"
  by (auto simp: getMetaImages_def metaObj_def newObj_def truthy_iff
        split: list.splits if_splits)

theorem getMetaImages_first_match_decides_witness:
  "(Map.empty :: attribs) ''content'' = None \<and>
   getMetaImages [Map.empty, [''content'' \<mapsto> ''/twitterimage.jpg'']] = [] \<and>
   length (getMetaImages [[''content'' \<mapsto> ''/ogimage.jpg''], [''content'' \<mapsto> ''/twitterimage.jpg'']]) = 2 \<and>
   map isMeta (getMetaImages [[''content'' \<mapsto> ''/ogimage.jpg''], [''content'' \<mapsto> ''/twitterimage.jpg'']])
     = [True, True] \<and>
   map (\<lambda>c. attribs c ''src'')
       (getMetaImages [[''content'' \<mapsto> ''/ogimage.jpg''], [''content'' \<mapsto> ''/twitterimage.jpg'']])
     = [Some ''/ogimage.jpg'', Some ''/twitterimage.jpg'']"
  using getMetaImages_first_match_decides
    [of Map.empty "[[''content'' \<mapsto> ''/twitterimage.jpg'']]"
        "[[''content'' \<mapsto> ''/ogimage.jpg''], [''content'' \<mapsto> ''/twitterimage.jpg'']]"]
  by (simp add: getMetaImages_def metaObj_def newObj_def)


section \<open>Normalisation of scores\<close>

lemma fold_max_score:
  "fold (\<lambda>item m. max m (score item)) arr m0 = Max (insert m0 (score ` set arr))"
proof (induction arr arbitrary: m0)
  case Nil
  show ?case by simp
next
  case (Cons a arr)
  have "Max (insert (max m0 (score a)) (score ` set arr))
        = Max (insert m0 (insert (score a) (score ` set arr)))"
    by (cases "set arr = {}") (simp_all add: max.assoc)
  with Cons show ?case by simp
qed

lemma maxScore_positive:
  assumes "\<exists>item \<in> set arr. 0 < score item"
  shows "maxScore arr = Max (score ` set arr)" and "0 < maxScore arr"
proof -
  from assms obtain item where item: "item \<in> set arr" "0 < score item" by blast
  have fin: "finite (score ` set arr)" and ne: "score ` set arr \<noteq> {}"
    using item by auto
  have ge: "score item \<le> Max (score ` set arr)"
    using item fin by simp
  have "maxScore arr = max (- 999999) (Max (score ` set arr))"
    unfolding maxScore_def fold_max_score using fin ne by simp
  moreover have pos: "0 < Max (score ` set arr)"
    using ge item by linarith
  ultimately show "maxScore arr = Max (score ` set arr)" by (simp add: max_def)
  with pos show "0 < maxScore arr" by simp
qed

lemma map_score_normalizeScores:
  "map score (normalizeScores arr) = map (\<lambda>item. score item / maxScore arr) arr"
  by (simp add: normalizeScores_def)

text \<open>
  Claim C7. For every array of scored candidates in which at least one score is
  strictly positive, after \<open>normalizeScores\<close> the maximum score is \<open>1\<close> and every
  score is its score before divided by the maximum before.
\<close>

theorem normalizeScores_max_is_one:
  assumes "\<exists>item \<in> set arr. 0 < score item"
  shows "Max (score ` set (normalizeScores arr)) = 1 \<and>
         map score (normalizeScores arr) = map (\<lambda>item. score item / Max (score ` set arr)) arr"
proof -
  let ?M = "Max (score ` set arr)"
  have M: "maxScore arr = ?M" and pos: "0 < ?M"
    using maxScore_positive [OF assms] by simp_all
  have fin: "finite (score ` set arr)" and ne: "score ` set arr \<noteq> {}"
    using assms by auto
  have img: "score ` set (normalizeScores arr) = (\<lambda>x. x / ?M) ` (score ` set arr)"
    by (auto simp: normalizeScores_def M image_iff)
  have "Max ((\<lambda>x. x / ?M) ` (score ` set arr)) = 1"
  proof (rule Max_eqI)
    show "finite ((\<lambda>x. x / ?M) ` score ` set arr)" using fin by simp
    show "y \<le> 1" if "y \<in> (\<lambda>x. x / ?M) ` score ` set arr" for y
    proof -
      from that obtain x where x: "x \<in> score ` set arr" "y = x / ?M" by blast
      then have "x \<le> ?M" using fin by simp
      with pos x show ?thesis by simp
    qed
    have "?M \<in> score ` set arr" using fin ne by (rule Max_in)
    then have "?M / ?M \<in> (\<lambda>x. x / ?M) ` score ` set arr" by blast
    with pos show "1 \<in> (\<lambda>x. x / ?M) ` score ` set arr" by simp
  qed
  with img have "Max (score ` set (normalizeScores arr)) = 1" by simp
  moreover have "map score (normalizeScores arr) = map (\<lambda>item. score item / ?M) arr"
    by (simp add: map_score_normalizeScores M)
  ultimately show ?thesis by simp
qed

theorem normalizeScores_max_is_one_witness:
  "(0::real) < 25 / 10 \<and>
   Max (score ` set (normalizeScores [newObj\<lparr>score := 0\<rparr>, newObj\<lparr>score := 2 / 10\<rparr>, newObj\<lparr>score := 25 / 10\<rparr>])) = 1 \<and>
   map score (normalizeScores [newObj\<lparr>score := 0\<rparr>, newObj\<lparr>score := 2 / 10\<rparr>, newObj\<lparr>score := 25 / 10\<rparr>])
     = [0, 2 / 25, 1]"
  using normalizeScores_max_is_one
    [of "[newObj\<lparr>score := 0\<rparr>, newObj\<lparr>score := 2 / 10\<rparr>, newObj\<lparr>score := 25 / 10\<rparr>]"]
  by (simp add: newObj_def)


section \<open>URL resolution\<close>

lemmas url_eval = resolveRelativeUrl_def urlResolve_def splitScheme_def isSchemeChar_def
  isWordChar_def directoryOf_def sliceTo_def lastIndexOf_def Let_def

text \<open>
  Claim C9. The synchronous resolver gives
  \<open>resolve("http://a.com/p", "x.jpg") = "http://a.com/x.jpg"\<close>,
  \<open>resolve("http://a.com/p", "/x.jpg") = "http://a.com/x.jpg"\<close>,
  \<open>resolve("http://a.com/p", "//a.com/x.jpg") = "http://a.com/x.jpg"\<close> and
  \<open>resolve("http://a.com/p", "") = "http://a.com/p"\<close>.
\<close>

theorem resolveRelativeUrl_examples:
  "resolveRelativeUrl ''http://a.com/p'' ''x.jpg'' = ''http://a.com/x.jpg'' \<and>
   resolveRelativeUrl ''http://a.com/p'' ''/x.jpg'' = ''http://a.com/x.jpg'' \<and>
   resolveRelativeUrl ''http://a.com/p'' ''//a.com/x.jpg'' = ''http://a.com/x.jpg'' \<and>
   resolveRelativeUrl ''http://a.com/p'' '''' = ''http://a.com/p''"
  by (simp add: url_eval)


section \<open>Data-URI addresses in the public validation\<close>

lemma indexOf_prefix_zero: "prefix pat s \<Longrightarrow> indexOf s pat = 0"
  by (cases s) (simp_all add: indexOf_def)

lemma httpUrlPattern_data: "\<not> httpUrlPattern (''data:'' @ rest)"
  by (simp add: httpUrlPattern_def toLowerCase_def)

text \<open>
  Claim C2 says that \<open>checkImageUrl\<close> accepts every address that starts with \<open>data:\<close>
  and calls back with a loaded result. The inner \<open>_checkImageUrl\<close> does so, but the
  public \<open>checkImageUrl\<close> never reaches it for such an address: the pattern test for
  \<open>http\<close> or \<open>https\<close> fails and the function returns without calling the callback.
\<close>

theorem checkImageUrl_data_uri_never_calls_back:
  "checkImageUrl e (Some (''data:'' @ rest)) = NotInvoked \<and>
   private_checkImageUrl e (''data:'' @ rest) = Invoked (None, Some fauxSuccess)"
  using httpUrlPattern_data [of rest] indexOf_prefix_zero [of "''data:''" "''data:'' @ rest"]
  by (simp add: checkImageUrl_def private_checkImageUrl_def)


section \<open>The completion guard of getImageSize\<close>

lemmas getImageSize_eval = getImageSize_def extensionSupportedForSizing_def ifTruthy_def
  sliceFrom_def lastIndexOf_def toLowerCase_def enterKey_def emptyKeyState_def
  updateKey_def handleEvent_def exitThenCb_def exitKey_def cb_def processFileEnd_def Let_def

text \<open>
  Every other handler tests the result of \<open>exitKey\<close>: as long as no stream of an
  unrecognised type ends for an address without a supported extension, the events add at
  most one call of the callback.
\<close>

lemma handleEvent_after_exit:
  assumes "thisKey r \<notin> dom (keyStore st)"
    and "\<not> (\<exists>b. ev = EndOfStream b \<and> existenceOnly r \<and> \<not> imageTypeResult b)"
  shows "calls (handleEvent r ev st) = calls st \<and> thisKey r \<notin> dom (keyStore (handleEvent r ev st))"
  using assms
  by (cases ev)
     (auto simp: handleEvent_def updateKey_def processData_def processFileEnd_def
        exitThenCb_def exitKey_def cb_def Let_def split: option.splits prod.splits)

lemma handleEvent_before_exit:
  assumes "thisKey r \<in> dom (keyStore st)"
    and "\<not> (\<exists>b. ev = EndOfStream b \<and> existenceOnly r \<and> \<not> imageTypeResult b)"
  shows "calls (handleEvent r ev st) = calls st \<and> thisKey r \<in> dom (keyStore (handleEvent r ev st)) \<or>
         length (calls (handleEvent r ev st)) = length (calls st) + 1 \<and>
         thisKey r \<notin> dom (keyStore (handleEvent r ev st))"
  using assms
  by (cases ev)
     (auto simp: handleEvent_def updateKey_def processData_def processFileEnd_def
        exitThenCb_def exitKey_def cb_def Let_def split: option.splits prod.splits)

lemma deliver_after_exit:
  assumes "\<forall>ev \<in> set evs. \<not> (\<exists>b. ev = EndOfStream b \<and> existenceOnly r \<and> \<not> imageTypeResult b)"
    and "thisKey r \<notin> dom (keyStore st)"
  shows "calls (deliver r evs st) = calls st"
  using assms
proof (induction evs arbitrary: st)
  case Nil
  show ?case by simp
next
  case (Cons ev evs)
  from Cons.prems have ok: "\<not> (\<exists>b. ev = EndOfStream b \<and> existenceOnly r \<and> \<not> imageTypeResult b)"
    by simp
  from handleEvent_after_exit [OF Cons.prems(2) ok] Cons.IH [of "handleEvent r ev st"] Cons.prems(1)
  show ?case by simp
qed

lemma deliver_at_most_once:
  assumes "\<forall>ev \<in> set evs. \<not> (\<exists>b. ev = EndOfStream b \<and> existenceOnly r \<and> \<not> imageTypeResult b)"
    and "thisKey r \<in> dom (keyStore st)"
  shows "length (calls (deliver r evs st)) \<le> length (calls st) + 1"
  using assms
proof (induction evs arbitrary: st)
  case Nil
  show ?case by simp
next
  case (Cons ev evs)
  from Cons.prems have ok: "\<not> (\<exists>b. ev = EndOfStream b \<and> existenceOnly r \<and> \<not> imageTypeResult b)"
    and rest: "\<forall>ev \<in> set evs. \<not> (\<exists>b. ev = EndOfStream b \<and> existenceOnly r \<and> \<not> imageTypeResult b)"
    by simp_all
  show ?case
  proof (cases "thrown st \<noteq> None")
    case True
    then show ?thesis by simp
  next
    case False
    from handleEvent_before_exit [OF Cons.prems(2) ok]
    consider "calls (handleEvent r ev st) = calls st" "thisKey r \<in> dom (keyStore (handleEvent r ev st))"
      | "length (calls (handleEvent r ev st)) = length (calls st) + 1"
        "thisKey r \<notin> dom (keyStore (handleEvent r ev st))"
      by blast
    then show ?thesis
    proof cases
      case 1
      with Cons.IH [OF rest 1(2)] False show ?thesis by simp
    next
      case 2
      with deliver_after_exit [OF rest 2(2)] False show ?thesis by simp
    qed
  qed
qed

text \<open>
  Claim C3 says that the completion callback of a validation request is called exactly
  once whatever transport events fire. For an address whose extension is not one the
  sizing library supports, a timeout followed by the end of a stream of bytes that is no
  recognised image calls it twice: \<open>processFileEnd\<close> calls \<open>cb("bad image type", null)\<close>
  without testing the result of \<open>exitKey\<close>.
\<close>

theorem getImageSize_calls_back_twice:
  "calls (getImageSize True (Some ''http:'') (Some ''/x.axf'') ''http://a.com/x.axf'' 1
            [TimeoutFired, EndOfStream \<lparr> imageTypeResult = False, sizeOfResult = None \<rparr>]
            emptyKeyState)
   = [(Some ''Timeout'', None), (Some ''bad image type'', None)]"
  by (simp add: getImageSize_eval)


section \<open>The batch loop of findValidImage\<close>

lemmas findValidImage_eval = findValidImage_def FIND_BLOCK_SIZE_def validateSlot_def
  checkImageUrl_def httpUrlPattern_def toLowerCase_def isWordChar_def isSpace_def
  private_checkImageUrl_def indexOf_def exampleEnv_def newObj_def slotValue_def
  callSizingFunction_def consolidateAndSizeRank_def adjustScoresWithSize_def
  normalizeScores_def sortByScore_def findValidImage_nextBatch_def List.map_filter_def Let_def

text \<open>
  The error completion is reached for the empty list only, and a first batch without
  survivor ends in the \<open>TypeError\<close>, whatever the rest of the list holds.
\<close>

lemma findValidImage_error_only_for_empty:
  "(findValidImage e cfg xs scoreFn = Cback (Some ''No valid image found'') None) = (xs = [])"
  by (auto simp: findValidImage_def findValidImage_nextBatch_def Let_def split: option.splits)

lemma callSizingFunction_no_survivor: "callSizingFunction None [] = []"
  by (simp add: callSizingFunction_def adjustScoresWithSize_def normalizeScores_def
        sortByScore_def)

lemma consolidateAndSizeRank_no_survivor:
  "\<forall>slot \<in> set slots. slot = None \<Longrightarrow> consolidateAndSizeRank cfg slots = []"
  by (induction slots) (simp_all add: consolidateAndSizeRank_def List.map_filter_def)

lemma findValidImage_failed_batch_throws:
  assumes "xs \<noteq> []"
    and "\<forall>img \<in> set (take FIND_BLOCK_SIZE xs).
           \<exists>err dims. err \<noteq> [] \<and> checkImageUrl e (src img) = Invoked (Some err, dims)"
  shows "findValidImage e cfg xs None = TypeErrorThrown"
proof -
  let ?slots = "map (validateSlot e) (take (min (0 + FIND_BLOCK_SIZE) (length xs)) xs)"
  have slot: "validateSlot e img = Invoked None" if "img \<in> set (take FIND_BLOCK_SIZE xs)" for img
    using assms(2) that by (fastforce simp: validateSlot_def)
  have "take (min (0 + FIND_BLOCK_SIZE) (length xs)) xs = take FIND_BLOCK_SIZE xs"
    by (simp add: min_def)
  then have all: "\<forall>s \<in> set ?slots. s = Invoked None"
    using slot by auto
  then have "NotInvoked \<notin> set ?slots" by auto
  moreover from all have "\<forall>slot \<in> set (map slotValue ?slots). slot = None"
    by (auto simp: slotValue_def)
  then have "consolidateAndSizeRank cfg (map slotValue ?slots) = []"
    by (rule consolidateAndSizeRank_no_survivor)
  ultimately show ?thesis
    using assms(1)
    by (simp add: findValidImage_def Let_def callSizingFunction_no_survivor
          findValidImage_nextBatch_def)
qed

text \<open>
  Claim C1 says that when no candidate of a batch survives validation,
  \<open>findValidImage\<close> goes on to the next batch and, when none remains, completes with the
  error \<open>No valid image found\<close>. For a list of one candidate whose validation fails the
  call for the next batch throws a \<open>TypeError\<close> instead, and \<open>cback\<close> is not called.
\<close>

theorem findValidImage_throws_on_failed_batch:
  "findValidImage exampleEnv SCORE_CONFIG [newObj \<lparr> src := Some ''http://a.com/broken.jpg'' \<rparr>] None
   = TypeErrorThrown"
  by (simp add: findValidImage_eval)



section \<open>De-duplication\<close>

lemma map_fst_assign:
  "map fst (assign obj k v) = (if k \<in> set (map fst obj) then map fst obj else map fst obj @ [k])"
  by (induction obj k v rule: assign.induct) auto

lemma distinct_assign: "distinct (map fst obj) \<Longrightarrow> distinct (map fst (assign obj k v))"
  by (simp add: map_fst_assign)

lemma map_of_assign: "map_of (assign obj k v) = (map_of obj)(k \<mapsto> v)"
  by (induction obj k v rule: assign.induct) auto

lemma storeAll_snoc:
  "storeAll (xs @ [x]) = assign (storeAll xs) (propertyKey (src x)) x"
  by (simp add: storeAll_def)

lemma distinct_storeAll: "distinct (map fst (storeAll xs))"
  by (induction xs rule: rev_induct) (simp_all add: storeAll_snoc distinct_assign, simp add: storeAll_def)

lemma keys_storeAll: "set (map fst (storeAll xs)) = (\<lambda>x. propertyKey (src x)) ` set xs"
proof (induction xs rule: rev_induct)
  case Nil
  show ?case by (simp add: storeAll_def)
next
  case (snoc x xs)
  then show ?case by (auto simp: storeAll_snoc map_fst_assign)
qed

lemma map_of_storeAll:
  "map_of (storeAll xs) k =
     (if k \<in> (\<lambda>x. propertyKey (src x)) ` set xs
      then Some (last (filter (\<lambda>x. propertyKey (src x) = k) xs)) else None)"
proof (induction xs rule: rev_induct)
  case Nil
  show ?case by (simp add: storeAll_def)
next
  case (snoc x xs)
  then show ?case by (auto simp: storeAll_snoc map_of_assign)
qed

lemma deDupeImageArray_storeAll: "deDupeImageArray xs = map snd (storeAll xs)"
  by (simp add: deDupeImageArray_def storeAll_def)

lemma storeAll_entry:
  assumes "(k, v) \<in> set (storeAll xs)"
  shows "v = last (filter (\<lambda>x. propertyKey (src x) = k) xs) \<and> k \<in> (\<lambda>x. propertyKey (src x)) ` set xs"
proof -
  from assms have "map_of (storeAll xs) k = Some v"
    using distinct_storeAll by (simp add: map_of_eq_Some_iff)
  then show ?thesis by (simp add: map_of_storeAll split: if_splits)
qed

lemma storeAll_key_of_value:
  assumes "(k, v) \<in> set (storeAll xs)"
  shows "propertyKey (src v) = k"
proof -
  from storeAll_entry [OF assms]
  have v: "v = last (filter (\<lambda>x. propertyKey (src x) = k) xs)"
    and "k \<in> (\<lambda>x. propertyKey (src x)) ` set xs" by simp_all
  then have ne: "filter (\<lambda>x. propertyKey (src x) = k) xs \<noteq> []"
    by (auto simp: filter_empty_conv)
  from last_in_set [OF ne] v show ?thesis by simp
qed

lemma deDupeImageArray_keeps_last:
  assumes "r \<in> set (deDupeImageArray xs)"
  shows "r = last (filter (\<lambda>x. propertyKey (src x) = propertyKey (src r)) xs)"
proof -
  from assms obtain k where kv: "(k, r) \<in> set (storeAll xs)"
    by (auto simp: deDupeImageArray_storeAll)
  from storeAll_key_of_value [OF kv] storeAll_entry [OF kv] show ?thesis by simp
qed

lemma deDupeImageArray_distinct:
  "distinct (map (\<lambda>x. propertyKey (src x)) (deDupeImageArray xs))"
proof -
  have "map (\<lambda>x. propertyKey (src x)) (deDupeImageArray xs) = map fst (storeAll xs)"
    by (auto simp: deDupeImageArray_storeAll dest: storeAll_key_of_value)
  then show ?thesis by (simp add: distinct_storeAll)
qed

lemma deDupeImageArray_same_addresses:
  "(\<lambda>x. propertyKey (src x)) ` set (deDupeImageArray xs) = (\<lambda>x. propertyKey (src x)) ` set xs"
proof -
  have "map (\<lambda>x. propertyKey (src x)) (deDupeImageArray xs) = map fst (storeAll xs)"
    by (auto simp: deDupeImageArray_storeAll dest: storeAll_key_of_value)
  then have "set (map (\<lambda>x. propertyKey (src x)) (deDupeImageArray xs)) = set (map fst (storeAll xs))"
    by simp
  with keys_storeAll [of xs] show ?thesis by simp
qed

text \<open>The pass of \<open>extractImages\<close> keeps the first occurrence.\<close>

lemma extractImages_keeps_first_occurrence:
  "map title (extractImages []
     [[''src'' \<mapsto> ''/x.jpg'', ''title'' \<mapsto> ''first''], [''src'' \<mapsto> ''/y.jpg''],
      [''src'' \<mapsto> ''/x.jpg'', ''title'' \<mapsto> ''second'']] [] ''Page'' None)
   = [Some ''first'', None]"
  by (simp add: extractImages_def getMetaImages_def extractImageTags_def imgTagObj_def
        imgCheckRead_def propertyKey_def objectPrototypeKeys_def flattenObj_def newObj_def)

text \<open>
  Claim C6 says that de-duplication keeps, for a repeated address, the first-seen
  candidate with its attributes, in \<open>deDupeImageArray\<close> as in the pass of
  \<open>extractImages\<close>. \<open>deDupeImageArray\<close> keeps every address once, but with the
  attributes of the last candidate that carries it, at the position of the first.
\<close>

theorem deDupeImageArray_keeps_last_occurrence:
  "deDupeImageArray
     [newObj \<lparr> src := Some ''http://a.com/x.jpg'', title := Some ''first'', isMeta := True \<rparr>,
      newObj \<lparr> src := Some ''http://a.com/y.jpg'' \<rparr>,
      newObj \<lparr> src := Some ''http://a.com/x.jpg'', title := Some ''second'' \<rparr>]
   = [newObj \<lparr> src := Some ''http://a.com/x.jpg'', title := Some ''second'' \<rparr>,
      newObj \<lparr> src := Some ''http://a.com/y.jpg'' \<rparr>]"
  by (simp add: deDupeImageArray_def storeAll_def propertyKey_def newObj_def)



section \<open>Good words and bad words\<close>

lemma checkGoodWords_Some:
  "checkGoodWords cfg (Some t) =
     (if t \<noteq> [] \<and> mentionsAny (cfg_goodWords cfg) t then goodWordMatch cfg else 0)"
  by (simp add: checkGoodWords_def ifTruthy_def mentionsAny_def)

lemma checkGoodWords_None: "checkGoodWords cfg None = 0"
  by (simp add: checkGoodWords_def ifTruthy_def)

lemma checkBadWords_mentions:
  "checkBadWords cfg text = (if mentionsAny (cfg_badWords cfg) text then badWordMatch cfg else 0)"
  by (simp add: checkBadWords_def mentionsAny_def)

lemma preferenceScore_goodWords:
  "goodWords (snd (preferenceScore cfg d imgUrl obj)) =
     (if 0 \<le> indexOf imgUrl ''data:image'' then 0 else checkGoodWords cfg (Some imgUrl))
     + checkGoodWords cfg (cssClass obj) + checkGoodWords cfg (title obj)"
  by (simp add: preferenceScore_def Let_def)

lemma preferenceScore_badWords:
  "badWords (snd (preferenceScore cfg d imgUrl obj)) =
     (if 0 \<le> indexOf imgUrl ''data:image'' then 0 else checkBadWords cfg imgUrl)"
  by (simp add: preferenceScore_def Let_def)

lemma preferenceScore_breakdown:
  "fst (preferenceScore cfg d imgUrl obj) =
     titleScore (snd (preferenceScore cfg d imgUrl obj))
     + queryScore (snd (preferenceScore cfg d imgUrl obj))
     + (if isMeta obj then cfg_isMeta cfg else 0)
     + goodWords (snd (preferenceScore cfg d imgUrl obj))
     + badWords (snd (preferenceScore cfg d imgUrl obj))
     + badFnameWords (snd (preferenceScore cfg d imgUrl obj))
     + getExtensionScore cfg imgUrl"
  by (simp add: preferenceScore_def Let_def ifTruthy_def split: option.splits)

text \<open>
  Claim C8, amended. In \<open>preferenceScore\<close> the good-word bonus is evaluated on the
  address, the class and the title one after the other and independently, so a
  candidate that mentions a good word in all three accumulates three times
  \<open>goodWordMatch\<close>; the bad-word penalty is applied at most once and only against the
  address. The good-word check of the address and the bad-word check are skipped when
  the address contains \<open>data:image\<close>, not for every address that starts with \<open>data:\<close>.
  Both contributions are terms of the returned score.
\<close>

theorem preferenceScore_word_checks:
  "goodWords (snd (preferenceScore cfg d imgUrl obj)) =
     (if 0 \<le> indexOf imgUrl ''data:image'' then 0 else checkGoodWords cfg (Some imgUrl))
     + checkGoodWords cfg (cssClass obj) + checkGoodWords cfg (title obj) \<and>
   badWords (snd (preferenceScore cfg d imgUrl obj)) =
     (if 0 \<le> indexOf imgUrl ''data:image'' then 0
      else if mentionsAny (cfg_badWords cfg) imgUrl then badWordMatch cfg else 0) \<and>
   checkGoodWords cfg None = 0 \<and>
   checkGoodWords cfg (Some t) =
     (if t \<noteq> [] \<and> mentionsAny (cfg_goodWords cfg) t then goodWordMatch cfg else 0) \<and>
   (indexOf imgUrl ''data:image'' < 0 \<and> imgUrl \<noteq> [] \<and> mentionsAny (cfg_goodWords cfg) imgUrl \<and>
    cssClass obj = Some c \<and> c \<noteq> [] \<and> mentionsAny (cfg_goodWords cfg) c \<and>
    title obj = Some ti \<and> ti \<noteq> [] \<and> mentionsAny (cfg_goodWords cfg) ti
    \<longrightarrow> goodWords (snd (preferenceScore cfg d imgUrl obj)) = 3 * goodWordMatch cfg) \<and>
   fst (preferenceScore cfg d imgUrl obj) =
     titleScore (snd (preferenceScore cfg d imgUrl obj))
     + queryScore (snd (preferenceScore cfg d imgUrl obj))
     + (if isMeta obj then cfg_isMeta cfg else 0)
     + goodWords (snd (preferenceScore cfg d imgUrl obj))
     + badWords (snd (preferenceScore cfg d imgUrl obj))
     + badFnameWords (snd (preferenceScore cfg d imgUrl obj))
     + getExtensionScore cfg imgUrl"
proof -
  have three: "goodWords (snd (preferenceScore cfg d imgUrl obj)) = 3 * goodWordMatch cfg"
    if "indexOf imgUrl ''data:image'' < 0" "imgUrl \<noteq> []" "mentionsAny (cfg_goodWords cfg) imgUrl"
       "cssClass obj = Some c" "c \<noteq> []" "mentionsAny (cfg_goodWords cfg) c"
       "title obj = Some ti" "ti \<noteq> []" "mentionsAny (cfg_goodWords cfg) ti"
    using that by (simp add: preferenceScore_goodWords checkGoodWords_Some)
  show ?thesis
    using three preferenceScore_breakdown [of cfg d imgUrl obj]
    by (simp add: preferenceScore_goodWords preferenceScore_badWords checkBadWords_mentions
          checkGoodWords_Some checkGoodWords_None)
qed

lemmas score_eval = preferenceScore_def SCORE_CONFIG_def newObj_def indexOf_def
  checkGoodWords_def checkBadWords_def checkFilenameBadWords_def getExtensionScore_def
  hasExtension_def dotted_def lastIndexOf_def sliceFrom_def sliceTo_def
  ifTruthy_def toLowerCase_def mentionsAny_def Let_def

theorem preferenceScore_word_checks_witness:
  "indexOf ''http://a.com/logo.png'' ''data:image'' < 0 \<and>
   mentionsAny (cfg_goodWords SCORE_CONFIG) ''http://a.com/logo.png'' \<and>
   mentionsAny (cfg_goodWords SCORE_CONFIG) ''Main-Banner'' \<and>
   mentionsAny (cfg_goodWords SCORE_CONFIG) ''Company logo'' \<and>
   goodWords (snd (preferenceScore SCORE_CONFIG exampleDeps ''http://a.com/logo.png''
      (newObj \<lparr> title := Some ''Company logo'', cssClass := Some ''Main-Banner'' \<rparr>)))
     = 3 * goodWordMatch SCORE_CONFIG \<and>
   3 * goodWordMatch SCORE_CONFIG = 9 / 10"
proof -
  have "indexOf ''http://a.com/logo.png'' ''data:image'' < 0"
    by (simp add: indexOf_def)
  moreover have "mentionsAny (cfg_goodWords SCORE_CONFIG) ''http://a.com/logo.png''"
    by (simp add: score_eval)
  moreover have "mentionsAny (cfg_goodWords SCORE_CONFIG) ''Main-Banner''"
    by (simp add: score_eval)
  moreover have "mentionsAny (cfg_goodWords SCORE_CONFIG) ''Company logo''"
    by (simp add: score_eval)
  moreover have "3 * goodWordMatch SCORE_CONFIG = 9 / 10"
    by (simp add: SCORE_CONFIG_def)
  ultimately show ?thesis
    using preferenceScore_word_checks
      [of SCORE_CONFIG exampleDeps "''http://a.com/logo.png''"
          "newObj \<lparr> title := Some ''Company logo'', cssClass := Some ''Main-Banner'' \<rparr>"
          "''x''" "''Main-Banner''" "''Company logo''"]
    by (simp add: newObj_def)
qed

text \<open>
  The claim as stated fails: an address that starts with \<open>data:\<close> and does not contain
  \<open>data:image\<close> gets both the good-word bonus and the bad-word penalty.
\<close>

theorem data_uri_address_is_word_checked:
  "indexOf ''data:,logo-spacer'' ''data:'' = 0 \<and>
   goodWords (snd (preferenceScore SCORE_CONFIG exampleDeps ''data:,logo-spacer'' newObj)) = 3 / 10 \<and>
   badWords (snd (preferenceScore SCORE_CONFIG exampleDeps ''data:,logo-spacer'' newObj)) = - 2"
  by (simp add: score_eval)



section \<open>Format preference\<close>

lemma toLowerCase_dot_ext:
  "toLowerCase e = e \<Longrightarrow> toLowerCase (b @ CHR ''.'' # e) = toLowerCase b @ CHR ''.'' # e"
  by (simp add: toLowerCase_def)

lemma mentionsAny_before_dot:
  assumes "\<forall>w \<in> set ws. CHR ''.'' \<notin> set w \<and> \<not> sublist w e" and "toLowerCase e = e"
  shows "mentionsAny ws (b @ CHR ''.'' # e) = mentionsAny ws b"
  using assms by (auto simp: mentionsAny_sublist toLowerCase_dot_ext sublist_before_dot)

lemma sliceFrom_minus_one: "s \<noteq> [] \<Longrightarrow> sliceFrom s (- 1) = [last s]"
proof (induction s rule: rev_induct)
  case Nil
  then show ?case by simp
next
  case (snoc x xs)
  show ?case by (simp add: sliceFrom_def)
qed

lemma checkFilenameBadWords_mentions:
  "checkFilenameBadWords cfg u =
     (if mentionsAny (badFilenames cfg) (sliceFrom u (lastIndexOf u ''/''))
      then badWordMatchFname cfg else 0)"
  by (simp add: checkFilenameBadWords_def mentionsAny_def Let_def)

lemma checkFilenameBadWords_before_dot:
  assumes ws: "\<forall>w \<in> set (badFilenames cfg). CHR ''.'' \<notin> set w \<and> \<not> sublist w e"
    and low: "toLowerCase e = e"
    and slash: "CHR ''/'' \<notin> set e"
    and lastc: "\<not> mentionsAny (badFilenames cfg) [last (CHR ''.'' # e)]"
  shows "checkFilenameBadWords cfg (b @ CHR ''.'' # e) =
     (if lastIndexOf b ''/'' < 0 then 0
      else if mentionsAny (badFilenames cfg) (sliceFrom b (lastIndexOf b ''/''))
        then badWordMatchFname cfg else 0)"
proof -
  from slash have same: "lastIndexOf (b @ CHR ''.'' # e) ''/'' = lastIndexOf b ''/''"
    by (simp add: lastIndexOf_char_append)
  from lastIndexOf_cases [of b "''/''"]
  consider "lastIndexOf b ''/'' = - 1"
    | k where "k \<le> length b" "lastIndexOf b ''/'' = int k"
    by blast
  then show ?thesis
  proof cases
    case 1
    have "sliceFrom (b @ CHR ''.'' # e) (- 1) = [last (CHR ''.'' # e)]"
      using sliceFrom_minus_one [of "b @ CHR ''.'' # e"] by simp
    with 1 same lastc show ?thesis
      by (simp add: checkFilenameBadWords_mentions)
  next
    case 2
    then have "sliceFrom (b @ CHR ''.'' # e) (int k) = drop k b @ CHR ''.'' # e"
      and "sliceFrom b (int k) = drop k b"
      by (simp_all add: sliceFrom_def)
    with 2 same mentionsAny_before_dot [OF ws low, of "drop k b"] show ?thesis
      by (simp add: checkFilenameBadWords_mentions)
  qed
qed

lemma preferenceScore_untitled:
  assumes "\<not> truthy (docTitle obj)" "\<not> truthy (query obj)"
  shows "fst (preferenceScore cfg d u obj) =
     (if isMeta obj then cfg_isMeta cfg else 0)
     + ((if sublist ''data:image'' u then 0 else checkGoodWords cfg (Some u))
        + checkGoodWords cfg (cssClass obj) + checkGoodWords cfg (title obj))
     + (if sublist ''data:image'' u then 0 else checkBadWords cfg u)
     + checkFilenameBadWords cfg u
     + getExtensionScore cfg u"
proof -
  from assms have "ifTruthy (docTitle obj) f 0 = (0::real)" "ifTruthy (query obj) f' 0 = (0::real)"
    for f f'
    by (auto simp: ifTruthy_def truthy_iff split: option.splits)
  then show ?thesis
    by (simp add: preferenceScore_def Let_def indexOf_sublist)
qed

lemma preferenceScore_before_dot:
  assumes words: "\<forall>w \<in> set (cfg_goodWords cfg) \<union> set (cfg_badWords cfg) \<union> set (badFilenames cfg).
                    CHR ''.'' \<notin> set w \<and> \<not> sublist w e"
    and dataimg: "\<not> sublist ''data:image'' e"
    and low: "toLowerCase e = e"
    and slash: "CHR ''/'' \<notin> set e"
    and lastc: "\<not> mentionsAny (badFilenames cfg) [last (CHR ''.'' # e)]"
    and untitled: "\<not> truthy (docTitle obj)" "\<not> truthy (query obj)"
  shows "fst (preferenceScore cfg d (b @ CHR ''.'' # e) obj) =
     (if isMeta obj then cfg_isMeta cfg else 0)
     + ((if sublist ''data:image'' b then 0
         else if mentionsAny (cfg_goodWords cfg) b then goodWordMatch cfg else 0)
        + checkGoodWords cfg (cssClass obj) + checkGoodWords cfg (title obj))
     + (if sublist ''data:image'' b then 0
        else if mentionsAny (cfg_badWords cfg) b then badWordMatch cfg else 0)
     + (if lastIndexOf b ''/'' < 0 then 0
        else if mentionsAny (badFilenames cfg) (sliceFrom b (lastIndexOf b ''/''))
          then badWordMatchFname cfg else 0)
     + getExtensionScore cfg (b @ CHR ''.'' # e)"
proof -
  have di: "sublist ''data:image'' (b @ CHR ''.'' # e) = sublist ''data:image'' b"
    using dataimg by (intro sublist_before_dot) simp_all
  have gw: "mentionsAny (cfg_goodWords cfg) (b @ CHR ''.'' # e) = mentionsAny (cfg_goodWords cfg) b"
    using words low by (intro mentionsAny_before_dot) auto
  have bw: "mentionsAny (cfg_badWords cfg) (b @ CHR ''.'' # e) = mentionsAny (cfg_badWords cfg) b"
    using words low by (intro mentionsAny_before_dot) auto
  have fw: "checkFilenameBadWords cfg (b @ CHR ''.'' # e) =
     (if lastIndexOf b ''/'' < 0 then 0
      else if mentionsAny (badFilenames cfg) (sliceFrom b (lastIndexOf b ''/''))
        then badWordMatchFname cfg else 0)"
    using words low slash lastc by (intro checkFilenameBadWords_before_dot) auto
  show ?thesis
    unfolding preferenceScore_untitled [OF untitled] di fw
    by (simp add: checkGoodWords_Some checkBadWords_mentions gw bw)
qed


lemma suffix_same_length:
  "length p = length q \<Longrightarrow> suffix p (b @ q) = (p = q)"
  by (auto simp: suffix_def)

lemma suffix_longer_by_one:
  "length p = Suc (length q) \<Longrightarrow> b \<noteq> [] \<Longrightarrow> suffix p (b @ q) = (p = last b # q)"
proof -
  assume len: "length p = Suc (length q)" and ne: "b \<noteq> []"
  then obtain bs where b: "b = bs @ [last b]" by (metis append_butlast_last_id)
  have "suffix p (bs @ last b # q) = (p = last b # q)"
    using len by (auto simp: suffix_def)
  with b show ?thesis by (metis append.assoc append_Cons append_Nil)
qed

lemma hasExtension_suffix:
  "hasExtension fl exts =
     (\<exists>ext \<in> set exts. suffix (dotted ext) fl \<or>
        \<not> sublist (dotted ext) fl \<and> length fl + 1 = length (dotted ext))"
  unfolding hasExtension_def list_ex_iff hasExtension_one ..

lemma getExtensionScore_jpg:
  assumes "\<not> prefix ''data:image'' base"
  shows "getExtensionScore cfg (base @ ''.jpg'') = isJPG cfg"
proof -
  have "indexOf (base @ ''.jpg'') ''data:image'' \<noteq> 0"
    using assms prefix_before_dot [of "''data:image''" base "''jpg''"]
    by (simp add: indexOf_zero_prefix)
  moreover have "hasExtension (base @ ''.jpg'') [''ashx'', ''jpg'', ''jpeg'']"
    using suffix_same_length [of "''.jpg''" "''.jpg''" base]
    by (simp add: hasExtension_suffix dotted_def)
  ultimately show ?thesis by (simp add: getExtensionScore_def)
qed

lemma getExtensionScore_gif:
  assumes "\<not> prefix ''data:image'' base" and "base \<noteq> []"
  shows "getExtensionScore cfg (base @ ''.gif'') = isGIF cfg"
proof -
  have "indexOf (base @ ''.gif'') ''data:image'' \<noteq> 0"
    using assms prefix_before_dot [of "''data:image''" base "''gif''"]
    by (simp add: indexOf_zero_prefix)
  moreover have "\<not> hasExtension (base @ ''.gif'') [''ashx'', ''jpg'', ''jpeg'']"
    using suffix_same_length [of "''.jpg''" "''.gif''" base]
      suffix_longer_by_one [of "''.ashx''" "''.gif''" base]
      suffix_longer_by_one [of "''.jpeg''" "''.gif''" base] assms(2)
    by (simp add: hasExtension_suffix dotted_def)
  moreover have "hasExtension (base @ ''.gif'') [''gif'']"
    using suffix_same_length [of "''.gif''" "''.gif''" base]
    by (simp add: hasExtension_suffix dotted_def)
  ultimately show ?thesis by (simp add: getExtensionScore_def)
qed

lemma getExtensionScore_png:
  assumes "\<not> prefix ''data:image'' base" and "base \<noteq> []"
  shows "getExtensionScore cfg (base @ ''.png'') = isPNG cfg"
proof -
  have "indexOf (base @ ''.png'') ''data:image'' \<noteq> 0"
    using assms prefix_before_dot [of "''data:image''" base "''png''"]
    by (simp add: indexOf_zero_prefix)
  moreover have "\<not> hasExtension (base @ ''.png'') [''ashx'', ''jpg'', ''jpeg'']"
    using suffix_same_length [of "''.jpg''" "''.png''" base]
      suffix_longer_by_one [of "''.ashx''" "''.png''" base]
      suffix_longer_by_one [of "''.jpeg''" "''.png''" base] assms(2)
    by (simp add: hasExtension_suffix dotted_def)
  moreover have "\<not> hasExtension (base @ ''.png'') [''gif'']"
    using suffix_same_length [of "''.gif''" "''.png''" base]
    by (simp add: hasExtension_suffix dotted_def)
  moreover have "hasExtension (base @ ''.png'') [''png'']"
    using suffix_same_length [of "''.png''" "''.png''" base]
    by (simp add: hasExtension_suffix dotted_def)
  ultimately show ?thesis by (simp add: getExtensionScore_def)
qed

lemma default_words_plain:
  assumes "e = ''jpg'' \<or> e = ''gif'' \<or> e = ''png''"
  shows "\<forall>w \<in> set (cfg_goodWords SCORE_CONFIG) \<union> set (cfg_badWords SCORE_CONFIG)
               \<union> set (badFilenames SCORE_CONFIG).
           CHR ''.'' \<notin> set w \<and> \<not> sublist w e"
  using assms by (auto simp: SCORE_CONFIG_def sublist_code)

lemma default_words_last_char:
  assumes "e = ''jpg'' \<or> e = ''gif'' \<or> e = ''png''"
  shows "\<not> mentionsAny (badFilenames SCORE_CONFIG) [last (CHR ''.'' # e)]"
  using assms
  by (auto simp: SCORE_CONFIG_def mentionsAny_def toLowerCase_def indexOf_def)


lemma format_scores_differ_by_bonus:
  assumes "base \<noteq> []" and "\<not> prefix ''data:image'' base"
    and "\<not> truthy (docTitle obj)" and "\<not> truthy (query obj)"
  shows
    "fst (preferenceScore (SCORE_CONFIG \<lparr> isJPG := j, isGIF := g, isPNG := p \<rparr>) d (base @ ''.jpg'') obj)
       - fst (preferenceScore (SCORE_CONFIG \<lparr> isJPG := j, isGIF := g, isPNG := p \<rparr>) d (base @ ''.gif'') obj)
       = j - g"
    and
    "fst (preferenceScore (SCORE_CONFIG \<lparr> isJPG := j, isGIF := g, isPNG := p \<rparr>) d (base @ ''.gif'') obj)
       - fst (preferenceScore (SCORE_CONFIG \<lparr> isJPG := j, isGIF := g, isPNG := p \<rparr>) d (base @ ''.png'') obj)
       = g - p"
proof -
  let ?cfg = "SCORE_CONFIG \<lparr> isJPG := j, isGIF := g, isPNG := p \<rparr>"
  define K where "K =
     (if isMeta obj then cfg_isMeta ?cfg else 0)
     + ((if sublist ''data:image'' base then 0
         else if mentionsAny (cfg_goodWords ?cfg) base then goodWordMatch ?cfg else 0)
        + checkGoodWords ?cfg (cssClass obj) + checkGoodWords ?cfg (title obj))
     + (if sublist ''data:image'' base then 0
        else if mentionsAny (cfg_badWords ?cfg) base then badWordMatch ?cfg else 0)
     + (if lastIndexOf base ''/'' < 0 then 0
        else if mentionsAny (badFilenames ?cfg) (sliceFrom base (lastIndexOf base ''/''))
          then badWordMatchFname ?cfg else 0)"
  have stem: "fst (preferenceScore ?cfg d (base @ CHR ''.'' # e) obj)
                = K + getExtensionScore ?cfg (base @ CHR ''.'' # e)"
    if e: "e = ''jpg'' \<or> e = ''gif'' \<or> e = ''png''" for e
  proof -
    have "\<forall>w \<in> set (cfg_goodWords ?cfg) \<union> set (cfg_badWords ?cfg) \<union> set (badFilenames ?cfg).
            CHR ''.'' \<notin> set w \<and> \<not> sublist w e"
      using default_words_plain [OF e] by simp
    moreover have "\<not> sublist ''data:image'' e"
      using e by (auto simp: sublist_code)
    moreover have "toLowerCase e = e"
      using e by (auto simp: toLowerCase_def)
    moreover have "CHR ''/'' \<notin> set e"
      using e by auto
    moreover have "\<not> mentionsAny (badFilenames ?cfg) [last (CHR ''.'' # e)]"
      using default_words_last_char [OF e] by simp
    ultimately show ?thesis
      unfolding K_def using assms(3,4) by (rule preferenceScore_before_dot)
  qed
  have jpg: "fst (preferenceScore ?cfg d (base @ ''.jpg'') obj) = K + j"
    using stem [of "''jpg''"] getExtensionScore_jpg [OF assms(2), of ?cfg] by simp
  have gif: "fst (preferenceScore ?cfg d (base @ ''.gif'') obj) = K + g"
    using stem [of "''gif''"] getExtensionScore_gif [OF assms(2,1), of ?cfg] by simp
  have png: "fst (preferenceScore ?cfg d (base @ ''.png'') obj) = K + p"
    using stem [of "''png''"] getExtensionScore_png [OF assms(2,1), of ?cfg] by simp
  show "fst (preferenceScore ?cfg d (base @ ''.jpg'') obj)
          - fst (preferenceScore ?cfg d (base @ ''.gif'') obj) = j - g"
    unfolding jpg gif by simp
  show "fst (preferenceScore ?cfg d (base @ ''.gif'') obj)
          - fst (preferenceScore ?cfg d (base @ ''.png'') obj) = g - p"
    unfolding gif png by simp
qed


text \<open>
  Claim C5, amended. All of the following is for two candidates without document title
  and query that differ only in the extension \<open>.jpg\<close>, \<open>.gif\<close> or \<open>.png\<close> of an
  address whose stem is not empty and does not start with \<open>data:image\<close>, with scores
  taken as real numbers. Under the default configuration with the three format bonuses
  replaced by \<open>j\<close>, \<open>g\<close> and \<open>p\<close>, the scores differ by the differences of the
  bonuses: with \<open>p < g < j\<close> (as the test suite configures) the \<open>.jpg\<close> candidate scores
  strictly higher than the \<open>.gif\<close> candidate, and that one strictly higher than the
  \<open>.png\<close> candidate. Under the default configuration itself, where
  \<open>isJPG = isGIF = isPNG = 0.5\<close>, the three candidates score the same.
\<close>

theorem format_preference_follows_configuration:
  assumes "base \<noteq> []" and "\<not> prefix ''data:image'' base"
    and "\<not> truthy (docTitle obj)" and "\<not> truthy (query obj)"
  shows
    "fst (preferenceScore (SCORE_CONFIG \<lparr> isJPG := j, isGIF := g, isPNG := p \<rparr>) d (base @ ''.jpg'') obj)
       - fst (preferenceScore (SCORE_CONFIG \<lparr> isJPG := j, isGIF := g, isPNG := p \<rparr>) d (base @ ''.gif'') obj)
       = j - g \<and>
     fst (preferenceScore (SCORE_CONFIG \<lparr> isJPG := j, isGIF := g, isPNG := p \<rparr>) d (base @ ''.gif'') obj)
       - fst (preferenceScore (SCORE_CONFIG \<lparr> isJPG := j, isGIF := g, isPNG := p \<rparr>) d (base @ ''.png'') obj)
       = g - p \<and>
     (p < g \<and> g < j \<longrightarrow>
        fst (preferenceScore (SCORE_CONFIG \<lparr> isJPG := j, isGIF := g, isPNG := p \<rparr>) d (base @ ''.png'') obj)
          < fst (preferenceScore (SCORE_CONFIG \<lparr> isJPG := j, isGIF := g, isPNG := p \<rparr>) d (base @ ''.gif'') obj) \<and>
        fst (preferenceScore (SCORE_CONFIG \<lparr> isJPG := j, isGIF := g, isPNG := p \<rparr>) d (base @ ''.gif'') obj)
          < fst (preferenceScore (SCORE_CONFIG \<lparr> isJPG := j, isGIF := g, isPNG := p \<rparr>) d (base @ ''.jpg'') obj)) \<and>
     fst (preferenceScore SCORE_CONFIG d (base @ ''.jpg'') obj)
       = fst (preferenceScore SCORE_CONFIG d (base @ ''.gif'') obj) \<and>
     fst (preferenceScore SCORE_CONFIG d (base @ ''.gif'') obj)
       = fst (preferenceScore SCORE_CONFIG d (base @ ''.png'') obj)"
proof -
  have same: "SCORE_CONFIG \<lparr> isJPG := 1 / 2, isGIF := 1 / 2, isPNG := 1 / 2 \<rparr> = SCORE_CONFIG"
    by (simp add: SCORE_CONFIG_def)
  have default:
    "fst (preferenceScore SCORE_CONFIG d (base @ ''.jpg'') obj)
       - fst (preferenceScore SCORE_CONFIG d (base @ ''.gif'') obj) = 0"
    "fst (preferenceScore SCORE_CONFIG d (base @ ''.gif'') obj)
       - fst (preferenceScore SCORE_CONFIG d (base @ ''.png'') obj) = 0"
    using format_scores_differ_by_bonus
      [OF assms, where j = "1 / 2" and g = "1 / 2" and p = "1 / 2" and d = d]
    unfolding same by simp_all
  from format_scores_differ_by_bonus [OF assms, where j = j and g = g and p = p and d = d]
    default
  show ?thesis by simp
qed

theorem format_preference_follows_configuration_witness:
  "''http://www.ask.com/assets/images/tire-repair'' \<noteq> [] \<and>
   (3 / 10 :: real) < 4 / 10 \<and> (4 / 10 :: real) < 5 / 10 \<and>
   fst (preferenceScore (SCORE_CONFIG \<lparr> isJPG := 5 / 10, isGIF := 4 / 10, isPNG := 3 / 10 \<rparr>)
          exampleDeps ''http://www.ask.com/assets/images/tire-repair.png'' (newObj \<lparr> docTitle := Some [] \<rparr>))
     < fst (preferenceScore (SCORE_CONFIG \<lparr> isJPG := 5 / 10, isGIF := 4 / 10, isPNG := 3 / 10 \<rparr>)
          exampleDeps ''http://www.ask.com/assets/images/tire-repair.gif'' (newObj \<lparr> docTitle := Some [] \<rparr>)) \<and>
   fst (preferenceScore (SCORE_CONFIG \<lparr> isJPG := 5 / 10, isGIF := 4 / 10, isPNG := 3 / 10 \<rparr>)
          exampleDeps ''http://www.ask.com/assets/images/tire-repair.gif'' (newObj \<lparr> docTitle := Some [] \<rparr>))
     < fst (preferenceScore (SCORE_CONFIG \<lparr> isJPG := 5 / 10, isGIF := 4 / 10, isPNG := 3 / 10 \<rparr>)
          exampleDeps ''http://www.ask.com/assets/images/tire-repair.jpg'' (newObj \<lparr> docTitle := Some [] \<rparr>)) \<and>
   fst (preferenceScore SCORE_CONFIG
          exampleDeps ''http://www.ask.com/assets/images/tire-repair.jpg'' (newObj \<lparr> docTitle := Some [] \<rparr>))
     = fst (preferenceScore SCORE_CONFIG
          exampleDeps ''http://www.ask.com/assets/images/tire-repair.gif'' (newObj \<lparr> docTitle := Some [] \<rparr>)) \<and>
   fst (preferenceScore SCORE_CONFIG
          exampleDeps ''http://www.ask.com/assets/images/tire-repair.gif'' (newObj \<lparr> docTitle := Some [] \<rparr>))
     = fst (preferenceScore SCORE_CONFIG
          exampleDeps ''http://www.ask.com/assets/images/tire-repair.png'' (newObj \<lparr> docTitle := Some [] \<rparr>))"
proof -
  have stem: "''http://www.ask.com/assets/images/tire-repair'' \<noteq> []"
    and nodata: "\<not> prefix ''data:image'' ''http://www.ask.com/assets/images/tire-repair''"
    and notitle: "\<not> truthy (docTitle (newObj \<lparr> docTitle := Some [] \<rparr>))"
    and noquery: "\<not> truthy (query (newObj \<lparr> docTitle := Some [] \<rparr>))"
    by (simp_all add: newObj_def)
  from format_preference_follows_configuration
    [OF stem nodata notitle noquery, where j = "5 / 10" and g = "4 / 10" and p = "3 / 10"
       and d = exampleDeps]
  show ?thesis by simp
qed

lemmas score_eval' = preferenceScore_def SCORE_CONFIG_def newObj_def indexOf_def
  checkGoodWords_def checkBadWords_def checkFilenameBadWords_def getExtensionScore_def
  hasExtension_def dotted_def lastIndexOf_def sliceFrom_def sliceTo_def getTitleScore_def
  exampleDeps_def examplePathname_def splitScheme_def isSchemeChar_def isWordChar_def
  ifTruthy_def toLowerCase_def mentionsAny_def Let_def

lemma default_score_jpg:
  "fst (preferenceScore SCORE_CONFIG exampleDeps ''http://a.com/tire.jpg'' newObj) = 1 / 2"
  by (simp add: score_eval')

lemma default_score_gif:
  "fst (preferenceScore SCORE_CONFIG exampleDeps ''http://a.com/tire.gif'' newObj) = 1 / 2"
  by (simp add: score_eval')

lemma default_score_png:
  "fst (preferenceScore SCORE_CONFIG exampleDeps ''http://a.com/tire.png'' newObj) = 1 / 2"
  by (simp add: score_eval')

lemma titled_score_jpg:
  "fst (preferenceScore (SCORE_CONFIG \<lparr> isJPG := 5 / 10, isGIF := 4 / 10, isPNG := 3 / 10 \<rparr>)
          exampleDeps ''http://a.com/x.jpg'' (newObj \<lparr> docTitle := Some ''/x.gif'' \<rparr>)) = 1 / 2"
  by (simp add: score_eval')

lemma titled_score_gif:
  "fst (preferenceScore (SCORE_CONFIG \<lparr> isJPG := 5 / 10, isGIF := 4 / 10, isPNG := 3 / 10 \<rparr>)
          exampleDeps ''http://a.com/x.gif'' (newObj \<lparr> docTitle := Some ''/x.gif'' \<rparr>)) = 14 / 10"
  by (simp add: score_eval')

lemma bare_score_jpg:
  "fst (preferenceScore (SCORE_CONFIG \<lparr> isJPG := 5 / 10, isGIF := 4 / 10, isPNG := 3 / 10 \<rparr>)
          exampleDeps ''.jpg'' newObj) = 1 / 2"
  by (simp add: score_eval')

lemma bare_score_gif:
  "fst (preferenceScore (SCORE_CONFIG \<lparr> isJPG := 5 / 10, isGIF := 4 / 10, isPNG := 3 / 10 \<rparr>)
          exampleDeps ''.gif'' newObj) = 1 / 2"
  by (simp add: score_eval')

text \<open>
  The claim as stated fails. Under the default configuration a \<open>.jpg\<close>, a \<open>.gif\<close> and
  a \<open>.png\<close> candidate that are otherwise identical score the same. With bonuses that
  differ, a document title can still reverse the order, since the similarity of the
  file name to the title depends on the extension; and the address \<open>.gif\<close>, of length
  four, passes the test for the extension \<open>.ashx\<close> (\<open>lastIndexOf\<close> gives \<open>-1\<close>, and
  \<open>-1 + 5 = 4\<close>), so it receives the bonus of a \<open>.jpg\<close>.
\<close>

theorem default_format_bonuses_are_equal:
  "\<not> (fst (preferenceScore SCORE_CONFIG exampleDeps ''http://a.com/tire.gif'' newObj)
        < fst (preferenceScore SCORE_CONFIG exampleDeps ''http://a.com/tire.jpg'' newObj)) \<and>
   \<not> (fst (preferenceScore SCORE_CONFIG exampleDeps ''http://a.com/tire.png'' newObj)
        < fst (preferenceScore SCORE_CONFIG exampleDeps ''http://a.com/tire.gif'' newObj)) \<and>
   \<not> (fst (preferenceScore (SCORE_CONFIG \<lparr> isJPG := 5 / 10, isGIF := 4 / 10, isPNG := 3 / 10 \<rparr>)
             exampleDeps ''http://a.com/x.gif'' (newObj \<lparr> docTitle := Some ''/x.gif'' \<rparr>))
        < fst (preferenceScore (SCORE_CONFIG \<lparr> isJPG := 5 / 10, isGIF := 4 / 10, isPNG := 3 / 10 \<rparr>)
             exampleDeps ''http://a.com/x.jpg'' (newObj \<lparr> docTitle := Some ''/x.gif'' \<rparr>))) \<and>
   \<not> (fst (preferenceScore (SCORE_CONFIG \<lparr> isJPG := 5 / 10, isGIF := 4 / 10, isPNG := 3 / 10 \<rparr>)
             exampleDeps ''.gif'' newObj)
        < fst (preferenceScore (SCORE_CONFIG \<lparr> isJPG := 5 / 10, isGIF := 4 / 10, isPNG := 3 / 10 \<rparr>)
             exampleDeps ''.jpg'' newObj))"
  unfolding default_score_jpg default_score_gif default_score_png titled_score_jpg
    titled_score_gif bare_score_jpg bare_score_gif
  by simp


section \<open>Meta candidates first\<close>

lemma ifTruthy_le: "(\<And>s. f s \<le> (m::real)) \<Longrightarrow> e \<le> m \<Longrightarrow> ifTruthy v f e \<le> m"
  by (simp add: ifTruthy_def split: option.splits)

lemma ifTruthy_ge: "(\<And>s. (m::real) \<le> f s) \<Longrightarrow> m \<le> e \<Longrightarrow> m \<le> ifTruthy v f e"
  by (simp add: ifTruthy_def split: option.splits)

lemma getTitleScore_bounds:
  assumes sim: "\<forall>a b. 0 \<le> compareTwoStrings d a b \<and> compareTwoStrings d a b \<le> 1"
    and f: "0 \<le> imgTitle f" "0 \<le> imgSrc f" "0 \<le> imgFname f"
  shows "0 \<le> getTitleScore d u obj t f"
    and "getTitleScore d u obj t f \<le> max (imgTitle f) (imgSrc f) + imgFname f"
proof -
  have nonneg: "0 \<le> w * compareTwoStrings d a b" if "0 \<le> w" for w a b
    using that sim by simp
  have le: "w * compareTwoStrings d a b \<le> w" if "0 \<le> w" for w a b
    using that sim by (simp add: mult_left_le)
  let ?fname = "ifTruthy (urlParsePathname d u) (\<lambda>p. sliceFrom p (lastIndexOf p ''/'')) []"
  let ?first = "ifTruthy (title obj) (\<lambda>ti. imgTitle f * compareTwoStrings d ti t)
                  (ifTruthy (alt obj) (\<lambda>al. imgTitle f * compareTwoStrings d al t)
                     (imgSrc f * compareTwoStrings d
                        (ifTruthy (urlParsePathname d u) (\<lambda>p. sliceTo p (lastIndexOf p ''/'')) []) t))"
  have eq: "getTitleScore d u obj t f = ?first + imgFname f * compareTwoStrings d ?fname t"
    by (simp add: getTitleScore_def Let_def)
  have first0: "0 \<le> ?first"
    by (intro ifTruthy_ge nonneg f)
  have t: "imgTitle f * compareTwoStrings d a b \<le> max (imgTitle f) (imgSrc f)" for a b
    using le [OF f(1), of a b] by simp
  have s: "imgSrc f * compareTwoStrings d a b \<le> max (imgTitle f) (imgSrc f)" for a b
    using le [OF f(2), of a b] by simp
  have first1: "?first \<le> max (imgTitle f) (imgSrc f)"
    by (intro ifTruthy_le t s)
  from first0 nonneg [OF f(3)] show "0 \<le> getTitleScore d u obj t f"
    unfolding eq by (simp add: add_nonneg_nonneg)
  from first1 le [OF f(3)] show "getTitleScore d u obj t f \<le> max (imgTitle f) (imgSrc f) + imgFname f"
    unfolding eq by (simp add: add_mono)
qed

lemma checkGoodWords_default: "checkGoodWords SCORE_CONFIG x = 0 \<or> checkGoodWords SCORE_CONFIG x = 3 / 10"
  by (simp add: checkGoodWords_def ifTruthy_def SCORE_CONFIG_def split: option.splits)

lemma checkBadWords_default: "checkBadWords SCORE_CONFIG x = 0 \<or> checkBadWords SCORE_CONFIG x = - 2"
  by (simp add: checkBadWords_def SCORE_CONFIG_def)

lemma checkFilenameBadWords_default:
  "checkFilenameBadWords SCORE_CONFIG x = 0 \<or> checkFilenameBadWords SCORE_CONFIG x = - 2"
  by (simp add: checkFilenameBadWords_def SCORE_CONFIG_def)

lemma getExtensionScore_default:
  "getExtensionScore SCORE_CONFIG x = 0 \<or> getExtensionScore SCORE_CONFIG x = 1 / 2"
  by (simp add: getExtensionScore_def SCORE_CONFIG_def)


lemma preferenceScore_titleScore:
  "titleScore (snd (preferenceScore cfg d u obj)) =
     (if 0 \<le> indexOf u ''data:image'' then 0
      else ifTruthy (docTitle obj) (\<lambda>t. getTitleScore d u obj t (docTitleFactors cfg)) 0)"
  by (simp add: preferenceScore_def Let_def ifTruthy_def split: option.splits)

lemma preferenceScore_queryScore:
  "queryScore (snd (preferenceScore cfg d u obj)) =
     (if 0 \<le> indexOf u ''data:image'' then 0
      else ifTruthy (query obj) (\<lambda>q. getTitleScore d u obj q (queryFactors cfg)) 0)"
  by (simp add: preferenceScore_def Let_def ifTruthy_def split: option.splits)

lemma preferenceScore_meta_lower_bound:
  assumes sim: "\<forall>a b. 0 \<le> compareTwoStrings d a b \<and> compareTwoStrings d a b \<le> 1"
    and meta: "isMeta obj"
  shows "6 \<le> fst (preferenceScore SCORE_CONFIG d u obj)"
proof -
  have f1: "0 \<le> imgTitle (docTitleFactors SCORE_CONFIG)" "0 \<le> imgSrc (docTitleFactors SCORE_CONFIG)"
    "0 \<le> imgFname (docTitleFactors SCORE_CONFIG)"
    and f2: "0 \<le> imgTitle (queryFactors SCORE_CONFIG)" "0 \<le> imgSrc (queryFactors SCORE_CONFIG)"
    "0 \<le> imgFname (queryFactors SCORE_CONFIG)"
    by (simp_all add: SCORE_CONFIG_def)
  have t: "0 \<le> titleScore (snd (preferenceScore SCORE_CONFIG d u obj))"
    by (auto simp: preferenceScore_titleScore
          intro!: ifTruthy_ge getTitleScore_bounds(1) [OF sim f1])
  have q: "0 \<le> queryScore (snd (preferenceScore SCORE_CONFIG d u obj))"
    by (auto simp: preferenceScore_queryScore
          intro!: ifTruthy_ge getTitleScore_bounds(1) [OF sim f2])
  have g: "0 \<le> goodWords (snd (preferenceScore SCORE_CONFIG d u obj))"
    using checkGoodWords_default [of "Some u"] checkGoodWords_default [of "cssClass obj"]
      checkGoodWords_default [of "title obj"]
    by (auto simp: preferenceScore_goodWords)
  have b: "- 2 \<le> badWords (snd (preferenceScore SCORE_CONFIG d u obj))"
    using checkBadWords_default [of u]
    by (auto simp: preferenceScore_badWords)
  have fb: "- 2 \<le> badFnameWords (snd (preferenceScore SCORE_CONFIG d u obj))"
    using checkFilenameBadWords_default [of u]
    by (auto simp: preferenceScore_def Let_def)
  have e: "0 \<le> getExtensionScore SCORE_CONFIG u"
    using getExtensionScore_default [of u] by auto
  have m: "cfg_isMeta SCORE_CONFIG = 10" by (simp add: SCORE_CONFIG_def)
  from t q g b fb e m meta show ?thesis
    unfolding preferenceScore_breakdown [of SCORE_CONFIG d u obj] by simp
qed

lemma preferenceScore_plain_upper_bound:
  assumes sim: "\<forall>a b. 0 \<le> compareTwoStrings d a b \<and> compareTwoStrings d a b \<le> 1"
    and plain: "\<not> isMeta obj" and noquery: "\<not> truthy (query obj)"
  shows "fst (preferenceScore SCORE_CONFIG d u obj) \<le> 34 / 10"
proof -
  have f1: "0 \<le> imgTitle (docTitleFactors SCORE_CONFIG)" "0 \<le> imgSrc (docTitleFactors SCORE_CONFIG)"
    "0 \<le> imgFname (docTitleFactors SCORE_CONFIG)"
    by (simp_all add: SCORE_CONFIG_def)
  have "getTitleScore d u obj s (docTitleFactors SCORE_CONFIG) \<le> 2" for s
    using getTitleScore_bounds(2) [OF sim f1, of u obj s] by (simp add: SCORE_CONFIG_def)
  then have t: "titleScore (snd (preferenceScore SCORE_CONFIG d u obj)) \<le> 2"
    by (auto simp: preferenceScore_titleScore intro!: ifTruthy_le)
  from noquery have "ifTruthy (query obj) f 0 = (0::real)" for f
    by (auto simp: ifTruthy_def truthy_iff split: option.splits)
  then have q: "queryScore (snd (preferenceScore SCORE_CONFIG d u obj)) = 0"
    by (simp add: preferenceScore_queryScore)
  have g: "goodWords (snd (preferenceScore SCORE_CONFIG d u obj)) \<le> 9 / 10"
    using checkGoodWords_default [of "Some u"] checkGoodWords_default [of "cssClass obj"]
      checkGoodWords_default [of "title obj"]
    by (auto simp: preferenceScore_goodWords)
  have b: "badWords (snd (preferenceScore SCORE_CONFIG d u obj)) \<le> 0"
    using checkBadWords_default [of u]
    by (auto simp: preferenceScore_badWords)
  have fb: "badFnameWords (snd (preferenceScore SCORE_CONFIG d u obj)) \<le> 0"
    using checkFilenameBadWords_default [of u]
    by (auto simp: preferenceScore_def Let_def)
  have e: "getExtensionScore SCORE_CONFIG u \<le> 1 / 2"
    using getExtensionScore_default [of u] by auto
  from t q g b fb e plain show ?thesis
    unfolding preferenceScore_breakdown [of SCORE_CONFIG d u obj] by simp
qed

lemma isMeta_preferenceScore: "isMeta (snd (preferenceScore cfg d u obj)) = isMeta obj"
  by (simp add: preferenceScore_def Let_def)

lemma isMeta_scoreObj: "isMeta (scoreObj cfg d obj) = isMeta obj"
  by (simp add: scoreObj_def isMeta_preferenceScore split: option.splits prod.splits)
     (metis isMeta_preferenceScore snd_conv)

lemma score_scoreObj_meta:
  assumes "\<forall>a b. 0 \<le> compareTwoStrings d a b \<and> compareTwoStrings d a b \<le> 1"
    and "isMeta obj" and "isValidSrcTag (src obj)"
  shows "6 \<le> score (scoreObj SCORE_CONFIG d obj)"
proof -
  from assms(3) obtain u where u: "src obj = Some u"
    by (cases "src obj") (simp_all add: isValidSrcTag_def ifTruthy_def)
  obtain s obj' where p: "preferenceScore SCORE_CONFIG d u obj = (s, obj')"
    by (cases "preferenceScore SCORE_CONFIG d u obj")
  with preferenceScore_meta_lower_bound [OF assms(1,2), of u] have "6 \<le> s" by simp
  with u p assms(3) show ?thesis by (simp add: scoreObj_def)
qed

lemma score_scoreObj_plain:
  assumes "\<forall>a b. 0 \<le> compareTwoStrings d a b \<and> compareTwoStrings d a b \<le> 1"
    and "\<not> isMeta obj" and "\<not> truthy (query obj)"
  shows "score (scoreObj SCORE_CONFIG d obj) \<le> 34 / 10"
proof (cases "isValidSrcTag (src obj)")
  case False
  then show ?thesis by (simp add: scoreObj_def)
next
  case True
  then obtain u where u: "src obj = Some u"
    by (cases "src obj") (simp_all add: isValidSrcTag_def ifTruthy_def)
  obtain s obj' where p: "preferenceScore SCORE_CONFIG d u obj = (s, obj')"
    by (cases "preferenceScore SCORE_CONFIG d u obj")
  with preferenceScore_plain_upper_bound [OF assms, of u] have "s \<le> 34 / 10" by simp
  with u p True show ?thesis by (simp add: scoreObj_def)
qed

lemma sorted_partition:
  assumes "sorted (map k xs)"
    and "\<forall>x \<in> set xs. \<forall>y \<in> set xs. P x \<and> \<not> P y \<longrightarrow> k x < (k y :: real)"
  shows "xs = filter P xs @ filter (\<lambda>x. \<not> P x) xs"
  using assms
proof (induction xs)
  case Nil
  show ?case by simp
next
  case (Cons x xs)
  then have IH: "xs = filter P xs @ filter (\<lambda>x. \<not> P x) xs" by simp
  show ?case
  proof (cases "P x")
    case True
    with IH show ?thesis by simp
  next
    case False
    have "\<not> P y" if "y \<in> set xs" for y
    proof
      assume "P y"
      with False that Cons.prems(2) have "k y < k x" by simp
      moreover from Cons.prems(1) that have "k x \<le> k y" by simp
      ultimately show False by simp
    qed
    then have "filter P xs = []" "filter (\<lambda>x. \<not> P x) xs = xs"
      by (simp_all add: filter_empty_conv filter_id_conv)
    with False show ?thesis by simp
  qed
qed

lemma metaFirst_sortByScore:
  assumes "\<forall>x \<in> set arr. isMeta x \<longrightarrow> 6 \<le> score x"
    and "\<forall>x \<in> set arr. \<not> isMeta x \<longrightarrow> score x \<le> 34 / 10"
  shows "metaFirst (sortByScore arr)"
  unfolding metaFirst_def
proof (rule sorted_partition [where k = "\<lambda>item. - score item"])
  show "sorted (map (\<lambda>item. - score item) (sortByScore arr))"
    by (simp add: sortByScore_def)
  show "\<forall>x \<in> set (sortByScore arr). \<forall>y \<in> set (sortByScore arr).
          isMeta x \<and> \<not> isMeta y \<longrightarrow> - score x < - score y"
    using assms by (fastforce simp: sortByScore_def)
qed

lemma metaFirst_normalizeScores: "metaFirst arr \<Longrightarrow> metaFirst (normalizeScores arr)"
proof -
  assume m: "metaFirst arr"
  let ?f = "\<lambda>item. item \<lparr> score := score item / maxScore arr \<rparr>"
  have f: "isMeta (?f c) = isMeta c" for c by simp
  have "filter isMeta (map ?f arr) @ filter (\<lambda>c. \<not> isMeta c) (map ?f arr)
        = map ?f (filter isMeta arr @ filter (\<lambda>c. \<not> isMeta c) arr)"
    by (simp add: filter_map comp_def)
  with m show ?thesis
    by (simp add: metaFirst_def normalizeScores_def)
qed

text \<open>
  Claim C4, amended. With no user scoring hook and the default configuration, for a
  similarity function with values between \<open>0\<close> and \<open>1\<close>: when every meta candidate has
  a valid address and no other candidate carries a query, \<open>findBestImages\<close> returns
  the meta candidates (two, or any number) ahead of every other candidate, for all values
  of titles, classes, addresses and document title. (A meta candidate with a valid
  address scores at least \<open>6\<close>; another candidate without query at most \<open>3.4\<close>. The
  query factors can add up to \<open>12\<close>.)
\<close>

theorem findBestImages_meta_first_without_query:
  assumes "\<forall>a b. 0 \<le> compareTwoStrings d a b \<and> compareTwoStrings d a b \<le> 1"
    and "\<forall>c \<in> set imgArray. isMeta c \<longrightarrow> isValidSrcTag (src c)"
    and "\<forall>c \<in> set imgArray. \<not> isMeta c \<longrightarrow> \<not> truthy (query c)"
  shows "metaFirst (findBestImages SCORE_CONFIG d imgArray None)"
proof -
  have "metaFirst (sortByScore (map (scoreObj SCORE_CONFIG d) imgArray))"
  proof (rule metaFirst_sortByScore)
    show "\<forall>x \<in> set (map (scoreObj SCORE_CONFIG d) imgArray). isMeta x \<longrightarrow> 6 \<le> score x"
    proof (intro ballI impI)
      fix x
      assume "x \<in> set (map (scoreObj SCORE_CONFIG d) imgArray)" and x: "isMeta x"
      then obtain c where c: "c \<in> set imgArray" "x = scoreObj SCORE_CONFIG d c" by auto
      with x have "isMeta c" by (simp add: isMeta_scoreObj)
      with c assms(2) have "isValidSrcTag (src c)" by blast
      with \<open>isMeta c\<close> c show "6 \<le> score x"
        using score_scoreObj_meta [OF assms(1)] by blast
    qed
    show "\<forall>x \<in> set (map (scoreObj SCORE_CONFIG d) imgArray). \<not> isMeta x \<longrightarrow> score x \<le> 34 / 10"
    proof (intro ballI impI)
      fix x
      assume "x \<in> set (map (scoreObj SCORE_CONFIG d) imgArray)" and x: "\<not> isMeta x"
      then obtain c where c: "c \<in> set imgArray" "x = scoreObj SCORE_CONFIG d c" by auto
      with x have plain: "\<not> isMeta c" by (simp add: isMeta_scoreObj)
      with c assms(3) have "\<not> truthy (query c)" by blast
      with plain c show "score x \<le> 34 / 10"
        using score_scoreObj_plain [OF assms(1)] by blast
    qed
  qed
  then show ?thesis
    by (simp add: findBestImages_def metaFirst_normalizeScores)
qed


lemmas scoreObj_eval = scoreObj_def isValidSrcTag_def trim_def isSpace_def
  preferenceScore_def SCORE_CONFIG_def newObj_def indexOf_def
  checkGoodWords_def checkBadWords_def checkFilenameBadWords_def getExtensionScore_def
  hasExtension_def dotted_def lastIndexOf_def sliceFrom_def sliceTo_def getTitleScore_def
  exampleDeps_def examplePathname_def splitScheme_def isSchemeChar_def isWordChar_def
  ifTruthy_def toLowerCase_def Let_def

lemma score_og:
  "score (scoreObj SCORE_CONFIG exampleDeps
     (newObj \<lparr> src := Some ''/ogimage.jpg'', isMeta := True, docTitle := Some ''query '' \<rparr>))
   = 105 / 10"
  by (simp add: scoreObj_eval)

lemma score_twitter:
  "score (scoreObj SCORE_CONFIG exampleDeps
     (newObj \<lparr> src := Some ''/twitterimage.jpg'', isMeta := True, docTitle := Some ''query '' \<rparr>))
   = 85 / 10"
  by (simp add: scoreObj_eval)

lemma score_image1:
  "score (scoreObj SCORE_CONFIG exampleDeps
     (newObj \<lparr> src := Some ''http://image1.jpg'', docTitle := Some ''query '' \<rparr>))
   = 5 / 10"
  by (simp add: scoreObj_eval)

lemma score_blank_og:
  "score (scoreObj SCORE_CONFIG exampleDeps
     (newObj \<lparr> src := Some '' '', isMeta := True, docTitle := Some ''query '' \<rparr>))
   = 0"
  by (simp add: scoreObj_eval)

lemma score_spacer_og:
  "score (scoreObj SCORE_CONFIG exampleDeps
     (newObj \<lparr> src := Some ''http://a.com/blank/spacer.gif'', isMeta := True,
               docTitle := Some ''cats'', query := Some ''cats'' \<rparr>))
   = 65 / 10"
  by (simp add: scoreObj_eval)

lemma score_pixel_twitter:
  "score (scoreObj SCORE_CONFIG exampleDeps
     (newObj \<lparr> src := Some ''http://a.com/pixel.gif'', isMeta := True,
               docTitle := Some ''cats'', query := Some ''cats'' \<rparr>))
   = 65 / 10"
  by (simp add: scoreObj_eval)

lemma score_titled_image:
  "score (scoreObj SCORE_CONFIG exampleDeps
     (newObj \<lparr> src := Some ''http://a.com/p/w.jpg'', title := Some ''cats'',
               docTitle := Some ''cats'', query := Some ''cats'' \<rparr>))
   = 75 / 10"
  by (simp add: scoreObj_eval)

lemma map_isMeta_normalizeScores: "map isMeta (normalizeScores arr) = map isMeta arr"
  by (simp add: normalizeScores_def comp_def)

lemma map_src_normalizeScores: "map src (normalizeScores arr) = map src arr"
  by (simp add: normalizeScores_def comp_def)

lemma src_scoreObj: "src (scoreObj cfg d obj) = src obj"
  by (simp add: scoreObj_def preferenceScore_def Let_def split: option.splits)

lemma metaFirst_flags:
  assumes "metaFirst arr"
  shows "map isMeta arr = filter (\<lambda>b. b) (map isMeta arr) @ filter (\<lambda>b. \<not> b) (map isMeta arr)"
proof -
  from assms have "map isMeta arr = map isMeta (filter isMeta arr @ filter (\<lambda>c. \<not> isMeta c) arr)"
    by (simp add: metaFirst_def)
  then show ?thesis by (simp add: filter_map comp_def)
qed


theorem findBestImages_meta_first_without_query_witness:
  "isValidSrcTag (Some ''/ogimage.jpg'') \<and> isValidSrcTag (Some ''/twitterimage.jpg'') \<and>
   metaFirst (findBestImages SCORE_CONFIG exampleDeps
     [newObj \<lparr> src := Some ''http://image1.jpg'', docTitle := Some ''query '' \<rparr>,
      newObj \<lparr> src := Some ''/twitterimage.jpg'', isMeta := True, docTitle := Some ''query '' \<rparr>,
      newObj \<lparr> src := Some ''/ogimage.jpg'', isMeta := True, docTitle := Some ''query '' \<rparr>] None) \<and>
   map src (findBestImages SCORE_CONFIG exampleDeps
     [newObj \<lparr> src := Some ''http://image1.jpg'', docTitle := Some ''query '' \<rparr>,
      newObj \<lparr> src := Some ''/twitterimage.jpg'', isMeta := True, docTitle := Some ''query '' \<rparr>,
      newObj \<lparr> src := Some ''/ogimage.jpg'', isMeta := True, docTitle := Some ''query '' \<rparr>] None)
     = [Some ''/ogimage.jpg'', Some ''/twitterimage.jpg'', Some ''http://image1.jpg'']"
proof -
  let ?imgs =
    "[newObj \<lparr> src := Some ''http://image1.jpg'', docTitle := Some ''query '' \<rparr>,
      newObj \<lparr> src := Some ''/twitterimage.jpg'', isMeta := True, docTitle := Some ''query '' \<rparr>,
      newObj \<lparr> src := Some ''/ogimage.jpg'', isMeta := True, docTitle := Some ''query '' \<rparr>]"
  have sim: "\<forall>a b. 0 \<le> compareTwoStrings exampleDeps a b \<and> compareTwoStrings exampleDeps a b \<le> 1"
    by (simp add: exampleDeps_def)
  have valid: "isValidSrcTag (Some ''/ogimage.jpg'')" "isValidSrcTag (Some ''/twitterimage.jpg'')"
    by (simp_all add: isValidSrcTag_def ifTruthy_def trim_def isSpace_def indexOf_def)
  then have v: "\<forall>c \<in> set ?imgs. isMeta c \<longrightarrow> isValidSrcTag (src c)"
    by (simp add: newObj_def)
  have q: "\<forall>c \<in> set ?imgs. \<not> isMeta c \<longrightarrow> \<not> truthy (query c)"
    by (simp add: newObj_def)
  have order: "map src (findBestImages SCORE_CONFIG exampleDeps ?imgs None)
                 = [Some ''/ogimage.jpg'', Some ''/twitterimage.jpg'', Some ''http://image1.jpg'']"
    unfolding findBestImages_def Let_def option.case map_src_normalizeScores sortByScore_def
    by (simp add: score_og score_twitter score_image1 src_scoreObj)
  from findBestImages_meta_first_without_query [OF sim v q] valid order show ?thesis
    by simp
qed

text \<open>
  The claim as stated fails. A meta tag whose content is blank gives a meta candidate
  with the score \<open>0\<close>, behind a plain \<open>.jpg\<close> image. And with a query, an image whose title
  equals the query and the document title (score \<open>7.5\<close>) comes before two meta
  candidates whose addresses contain bad words (score \<open>6.5\<close> each).
\<close>

theorem findBestImages_non_meta_before_meta:
  "map isMeta (findBestImages SCORE_CONFIG exampleDeps
     [newObj \<lparr> src := Some '' '', isMeta := True, docTitle := Some ''query '' \<rparr>,
      newObj \<lparr> src := Some ''/twitterimage.jpg'', isMeta := True, docTitle := Some ''query '' \<rparr>,
      newObj \<lparr> src := Some ''http://image1.jpg'', docTitle := Some ''query '' \<rparr>] None)
     = [True, False, True] \<and>
   \<not> metaFirst (findBestImages SCORE_CONFIG exampleDeps
     [newObj \<lparr> src := Some '' '', isMeta := True, docTitle := Some ''query '' \<rparr>,
      newObj \<lparr> src := Some ''/twitterimage.jpg'', isMeta := True, docTitle := Some ''query '' \<rparr>,
      newObj \<lparr> src := Some ''http://image1.jpg'', docTitle := Some ''query '' \<rparr>] None) \<and>
   map isMeta (findBestImages SCORE_CONFIG exampleDeps
     [newObj \<lparr> src := Some ''http://a.com/blank/spacer.gif'', isMeta := True,
               docTitle := Some ''cats'', query := Some ''cats'' \<rparr>,
      newObj \<lparr> src := Some ''http://a.com/pixel.gif'', isMeta := True,
               docTitle := Some ''cats'', query := Some ''cats'' \<rparr>,
      newObj \<lparr> src := Some ''http://a.com/p/w.jpg'', title := Some ''cats'',
               docTitle := Some ''cats'', query := Some ''cats'' \<rparr>] None)
     = [False, True, True] \<and>
   \<not> metaFirst (findBestImages SCORE_CONFIG exampleDeps
     [newObj \<lparr> src := Some ''http://a.com/blank/spacer.gif'', isMeta := True,
               docTitle := Some ''cats'', query := Some ''cats'' \<rparr>,
      newObj \<lparr> src := Some ''http://a.com/pixel.gif'', isMeta := True,
               docTitle := Some ''cats'', query := Some ''cats'' \<rparr>,
      newObj \<lparr> src := Some ''http://a.com/p/w.jpg'', title := Some ''cats'',
               docTitle := Some ''cats'', query := Some ''cats'' \<rparr>] None)"
proof -
  let ?blank =
    "[newObj \<lparr> src := Some '' '', isMeta := True, docTitle := Some ''query '' \<rparr>,
      newObj \<lparr> src := Some ''/twitterimage.jpg'', isMeta := True, docTitle := Some ''query '' \<rparr>,
      newObj \<lparr> src := Some ''http://image1.jpg'', docTitle := Some ''query '' \<rparr>]"
  let ?cats =
    "[newObj \<lparr> src := Some ''http://a.com/blank/spacer.gif'', isMeta := True,
               docTitle := Some ''cats'', query := Some ''cats'' \<rparr>,
      newObj \<lparr> src := Some ''http://a.com/pixel.gif'', isMeta := True,
               docTitle := Some ''cats'', query := Some ''cats'' \<rparr>,
      newObj \<lparr> src := Some ''http://a.com/p/w.jpg'', title := Some ''cats'',
               docTitle := Some ''cats'', query := Some ''cats'' \<rparr>]"
  have blank: "map isMeta (findBestImages SCORE_CONFIG exampleDeps ?blank None) = [True, False, True]"
    unfolding findBestImages_def Let_def option.case map_isMeta_normalizeScores sortByScore_def
    by (simp add: score_blank_og score_twitter score_image1 isMeta_scoreObj) (simp add: newObj_def)
  have cats: "map isMeta (findBestImages SCORE_CONFIG exampleDeps ?cats None) = [False, True, True]"
    unfolding findBestImages_def Let_def option.case map_isMeta_normalizeScores sortByScore_def
    by (simp add: score_spacer_og score_pixel_twitter score_titled_image isMeta_scoreObj)
       (simp add: newObj_def)
  have "\<not> metaFirst (findBestImages SCORE_CONFIG exampleDeps ?blank None)"
    using metaFirst_flags [of "findBestImages SCORE_CONFIG exampleDeps ?blank None"]
    unfolding blank by auto
  moreover have "\<not> metaFirst (findBestImages SCORE_CONFIG exampleDeps ?cats None)"
    using metaFirst_flags [of "findBestImages SCORE_CONFIG exampleDeps ?cats None"]
    unfolding cats by auto
  ultimately show ?thesis using blank cats by simp
qed


end
